theory Spec2Isabelle
  imports Complex_Main "HOL-Library.Sublist"
begin


section \<open>Numbers and strings of the source language\<close>

text \<open>
  A value of the source's type \<open>number\<close> is the not-a-number value or a rational. The
  infinities are left out, and the two zeros are one value, which strict equality
  does not tell apart either. The operations below compare numbers, copy them,
  subtract from one and multiply by one. Subtraction is exact here, where the source
  rounds to the nearest double; at 0 and at 1 there is nothing to round. Strict
  equality \<open>===\<close> is not reflexive: it is false as soon as one side is not-a-number.
\<close>

datatype number = NaN | Num rat

fun strictEq :: "number \<Rightarrow> number \<Rightarrow> bool" where
  "strictEq (Num a) (Num b) = (a = b)"
| "strictEq _ _ = False"

fun minusNum :: "number \<Rightarrow> number \<Rightarrow> number" where
  "minusNum (Num a) (Num b) = Num (a - b)"
| "minusNum _ _ = NaN"

fun timesNum :: "number \<Rightarrow> number \<Rightarrow> number" where
  "timesNum (Num a) (Num b) = Num (a * b)"
| "timesNum _ _ = NaN"

fun isNum :: "number \<Rightarrow> bool" where
  "isNum (Num a) = True"
| "isNum NaN = False"

section \<open>hexToRgb\<close>

text \<open>
  The character class \<open>[a-f\d]\<close> under the flag \<open>i\<close>: a decimal digit, or a letter from
  a to f in either case.
\<close>

definition hexClass :: "char \<Rightarrow> bool" where
  "hexClass c =
     (let n = (of_char c :: nat)
      in (48 \<le> n \<and> n \<le> 57) \<or> (97 \<le> n \<and> n \<le> 102) \<or> (65 \<le> n \<and> n \<le> 70))"

text \<open>The optional leading \<open>#\<close> of both patterns. A \<open>#\<close> is no hex digit, so a
  match that starts with one must consume it.\<close>

fun optHash :: "string \<Rightarrow> string" where
  "optHash [] = []"
| "optHash (c # cs) = (if c = CHR ''#'' then cs else c # cs)"

text \<open>\<open>shorthandRegex\<close>, anchored at both ends: the three captured digits.\<close>

fun shorthandRegex :: "string \<Rightarrow> (char \<times> char \<times> char) option" where
  "shorthandRegex s =
     (case optHash s of
        [c1, c2, c3] \<Rightarrow>
          if hexClass c1 \<and> hexClass c2 \<and> hexClass c3 then Some (c1, c2, c3) else None
      | _ \<Rightarrow> None)"

text \<open>The second pattern, anchored at both ends: the three captured digit pairs.\<close>

fun fullRegex :: "string \<Rightarrow> (string \<times> string \<times> string) option" where
  "fullRegex s =
     (case optHash s of
        [r1, r2, g1, g2, b1, b2] \<Rightarrow>
          if hexClass r1 \<and> hexClass r2 \<and> hexClass g1 \<and> hexClass g2 \<and> hexClass b1 \<and> hexClass b2
          then Some ([r1, r2], [g1, g2], [b1, b2]) else None
      | _ \<Rightarrow> None)"

text \<open>
  \<open>parseInt(s, 16)\<close> on a string of hex digits: the digits are folded from the left. The
  only callers pass the two-digit captures of the second pattern, so neither a sign, a
  prefix nor an empty digit string occurs.
\<close>

definition digitValue :: "char \<Rightarrow> nat" where
  "digitValue c =
     (let n = (of_char c :: nat)
      in if n \<le> 57 then n - 48 else if 97 \<le> n then n - 87 else n - 55)"

definition parseInt16 :: "string \<Rightarrow> nat" where
  "parseInt16 s = foldl (\<lambda>acc c. 16 * acc + digitValue c) 0 s"

text \<open>The decoded colour: the object with the fields \<open>r\<close>, \<open>g\<close> and \<open>b\<close>.\<close>

record rgb =
  r :: nat
  g :: nat
  b :: nat

text \<open>\<open>replace\<close> with the shorthand pattern rewrites the whole string or leaves it as
  it is; the result \<open>None\<close> is the source's \<open>null\<close>.\<close>

definition hexToRgb :: "string \<Rightarrow> rgb option" where
  "hexToRgb hex =
     (let cleanedHex = (case shorthandRegex hex of
                          Some (c1, c2, c3) \<Rightarrow> [c1, c1, c2, c2, c3, c3]
                        | None \<Rightarrow> hex)
      in case fullRegex cleanedHex of
           Some (p1, p2, p3) \<Rightarrow> Some \<lparr>r = parseInt16 p1, g = parseInt16 p2, b = parseInt16 p3\<rparr>
         | None \<Rightarrow> None)"


section \<open>The data of the Globe component\<close>

text \<open>An arc descriptor, the element type of the property \<open>data\<close>.\<close>

record Position =
  order :: number
  startLat :: number
  startLng :: number
  endLat :: number
  endLng :: number
  arcAlt :: number
  color :: string

text \<open>
  The options of \<open>GlobeConfig\<close> that \<open>defaultProps\<close> gives a default to; an option the
  caller leaves out is \<open>None\<close>. The lighting and camera options of the type pass through
  the merge unchanged and are read by no operation of \<open>Globe\<close>.
\<close>

record GlobeConfig =
  opt_pointSize :: "number option"
  opt_atmosphereColor :: "string option"
  opt_showAtmosphere :: "bool option"
  opt_atmosphereAltitude :: "number option"
  opt_polygonColor :: "string option"
  opt_globeColor :: "string option"
  opt_emissive :: "string option"
  opt_emissiveIntensity :: "number option"
  opt_shininess :: "number option"
  opt_arcTime :: "number option"
  opt_arcLength :: "number option"
  opt_rings :: "number option"
  opt_maxRings :: "number option"

record Props =
  pointSize :: number
  atmosphereColor :: string
  showAtmosphere :: bool
  atmosphereAltitude :: number
  polygonColor :: string
  globeColor :: string
  emissive :: string
  emissiveIntensity :: number
  shininess :: number
  arcTime :: number
  arcLength :: number
  rings :: number
  maxRings :: number

definition orDefault :: "'a option \<Rightarrow> 'a \<Rightarrow> 'a" where
  "orDefault v d = (case v of Some x \<Rightarrow> x | None \<Rightarrow> d)"

text \<open>\<open>defaultProps\<close>: the built-in defaults, overridden by what the caller supplies.\<close>

definition defaultProps :: "GlobeConfig \<Rightarrow> Props" where
  "defaultProps globeConfig =
     \<lparr>pointSize = orDefault (opt_pointSize globeConfig) (Num 1),
      atmosphereColor = orDefault (opt_atmosphereColor globeConfig) ''#ffffff'',
      showAtmosphere = orDefault (opt_showAtmosphere globeConfig) True,
      atmosphereAltitude = orDefault (opt_atmosphereAltitude globeConfig) (Num (1 / 10)),
      polygonColor = orDefault (opt_polygonColor globeConfig) ''rgba(255,255,255,0.7)'',
      globeColor = orDefault (opt_globeColor globeConfig) ''#1d072e'',
      emissive = orDefault (opt_emissive globeConfig) ''#000000'',
      emissiveIntensity = orDefault (opt_emissiveIntensity globeConfig) (Num (1 / 10)),
      shininess = orDefault (opt_shininess globeConfig) (Num (9 / 10)),
      arcTime = orDefault (opt_arcTime globeConfig) (Num 2000),
      arcLength = orDefault (opt_arcLength globeConfig) (Num (9 / 10)),
      rings = orDefault (opt_rings globeConfig) (Num 1),
      maxRings = orDefault (opt_maxRings globeConfig) (Num 3)\<rparr>"

text \<open>An element of \<open>globeData\<close>. Its colour is a closure over the decoded triple.\<close>

record RenderPoint =
  pt_size :: number
  pt_order :: number
  pt_color :: "number \<Rightarrow> string"
  lat :: number
  lng :: number

section \<open>Template literals\<close>

text \<open>The decimal text of a natural number, as a template literal prints an integer.\<close>

fun showNat :: "nat \<Rightarrow> string" where
  "showNat n = (if n < 10 then [char_of (48 + n)]
                else showNat (n div 10) @ [char_of (48 + n mod 10)])"

declare showNat.simps [simp del]

text \<open>
  The text of a number inside a template literal. An integer below \<open>10^21\<close> in absolute
  value prints as its decimal digits. How any other numeric value prints is the
  platform's shortest-decimal conversion, which is no part of the repository: it is the
  parameter \<open>fmt\<close>.
\<close>

fun numberToString :: "(rat \<Rightarrow> string) \<Rightarrow> number \<Rightarrow> string" where
  "numberToString fmt NaN = ''NaN''"
| "numberToString fmt (Num q) =
     (if of_int \<lfloor>q\<rfloor> = q \<and> \<bar>q\<bar> < 10 ^ 21
      then (if q < 0 then ''-'' @ showNat (nat \<lfloor>- q\<rfloor>) else showNat (nat \<lfloor>q\<rfloor>))
      else fmt q)"

text \<open>The closure \<open>(t) => `rgba(${rgb.r}, ${rgb.g}, ${rgb.b}, ${1 - t})`\<close>.\<close>

definition colorClosure :: "(rat \<Rightarrow> string) \<Rightarrow> rgb \<Rightarrow> number \<Rightarrow> string" where
  "colorClosure fmt c t =
     ''rgba('' @ showNat (r c) @ '', '' @ showNat (g c) @ '', '' @ showNat (b c) @ '', ''
       @ numberToString fmt (minusNum (Num 1) t) @ '')''"

section \<open>_buildData\<close>

text \<open>The loop over the arcs: \<open>points\<close> grows by two entries for an arc whose colour
  decodes and stays as it is for any other arc.\<close>

fun buildLoop :: "(rat \<Rightarrow> string) \<Rightarrow> Props \<Rightarrow> Position list \<Rightarrow> RenderPoint list
    \<Rightarrow> RenderPoint list" where
  "buildLoop fmt dp [] points = points"
| "buildLoop fmt dp (arc # arcs) points =
     buildLoop fmt dp arcs
       (case hexToRgb (color arc) of
          Some c \<Rightarrow>
            points @
            [\<lparr>pt_size = pointSize dp, pt_order = order arc, pt_color = colorClosure fmt c,
              lat = startLat arc, lng = startLng arc\<rparr>,
             \<lparr>pt_size = pointSize dp, pt_order = order arc, pt_color = colorClosure fmt c,
              lat = endLat arc, lng = endLng arc\<rparr>]
        | None \<Rightarrow> points)"

text \<open>\<open>findIndex\<close>: the position of the first element that satisfies the predicate,
  and \<open>-1\<close> when there is none.\<close>

fun findIndex :: "('a \<Rightarrow> bool) \<Rightarrow> 'a list \<Rightarrow> int" where
  "findIndex P [] = - 1"
| "findIndex P (x # xs) =
     (if P x then 0 else (let k = findIndex P xs in if k = - 1 then - 1 else k + 1))"

text \<open>\<open>filter\<close> with a callback that also receives the position of the element.\<close>

definition filterIndexed :: "('a \<Rightarrow> nat \<Rightarrow> bool) \<Rightarrow> 'a list \<Rightarrow> 'a list" where
  "filterIndexed P xs = map fst (filter (\<lambda>(v, i). P v i) (zip xs [0..<length xs]))"

text \<open>The test \<open>["lat", "lng"].every((k) => v2[k] === v[k])\<close>.\<close>

definition sameLatLng :: "RenderPoint \<Rightarrow> RenderPoint \<Rightarrow> bool" where
  "sameLatLng v2 v = (strictEq (lat v2) (lat v) \<and> strictEq (lng v2) (lng v))"

text \<open>The filter that removes duplicates: an element stays when the first position
  with its latitude and longitude is its own position.\<close>

definition filteredPoints :: "RenderPoint list \<Rightarrow> RenderPoint list" where
  "filteredPoints points =
     filterIndexed (\<lambda>v i. findIndex (\<lambda>v2. sameLatLng v2 v) points = int i) points"

text \<open>The value that \<open>_buildData\<close> hands to \<open>setGlobeData\<close>.\<close>

definition buildData :: "(rat \<Rightarrow> string) \<Rightarrow> Props \<Rightarrow> Position list \<Rightarrow> RenderPoint list" where
  "buildData fmt dp data = (let points = buildLoop fmt dp data [] in filteredPoints points)"

section \<open>The rendering library's globe object and the component state\<close>

text \<open>
  The settings of the globe object that \<open>startAnimation\<close> and the ring interval write.
  An accessor is a function of the arc. The stroke accessor calls \<open>Math.random\<close> each time
  the library evaluates it: the value that call returns is its first argument. The
  numeric settings of the ring layer (radius, speed, repeat period) are left out.
\<close>

record ThreeGlobe =
  arcsData :: "Position list"
  arcStartLat :: "Position \<Rightarrow> number"
  arcStartLng :: "Position \<Rightarrow> number"
  arcEndLat :: "Position \<Rightarrow> number"
  arcEndLng :: "Position \<Rightarrow> number"
  arcColor :: "Position \<Rightarrow> string"
  arcAltitude :: "Position \<Rightarrow> number"
  arcStroke :: "rat \<Rightarrow> Position \<Rightarrow> number option"
  arcDashLength :: number
  arcDashInitialGap :: "Position \<Rightarrow> number"
  arcDashGap :: number
  arcDashAnimateTime :: "Position \<Rightarrow> number"
  pointsData :: "RenderPoint list"
  pointsMerge :: bool
  pointAltitude :: number
  pointRadius :: number
  ringsData :: "RenderPoint list"
  ringColor :: "RenderPoint \<Rightarrow> number \<Rightarrow> string"

text \<open>\<open>globeRef.current\<close> and \<open>globeData\<close>; \<open>None\<close> is \<open>null\<close>.\<close>

record GlobeState =
  globeRef :: "ThreeGlobe option"
  globeData :: "RenderPoint list option"

section \<open>startAnimation\<close>

text \<open>\<open>Math.round\<close>: the nearest integer, a tie going up.\<close>

definition mathRound :: "rat \<Rightarrow> int" where
  "mathRound x = \<lfloor>x + 1 / 2\<rfloor>"

text \<open>Reading an array at an index; \<open>None\<close> is \<open>undefined\<close>.\<close>

definition arrayAt :: "'a list \<Rightarrow> int \<Rightarrow> 'a option" where
  "arrayAt xs i = (if 0 \<le> i \<and> i < int (length xs) then Some (xs ! nat i) else None)"

text \<open>The stroke accessor \<open>[0.32, 0.28, 0.3][Math.round(Math.random() * 2)]\<close>, with the
  value of \<open>Math.random()\<close> as \<open>u\<close>.\<close>

definition strokeAccessor :: "rat \<Rightarrow> Position \<Rightarrow> number option" where
  "strokeAccessor u e = arrayAt [Num (32 / 100), Num (28 / 100), Num (3 / 10)] (mathRound (u * 2))"

definition startAnimation :: "Props \<Rightarrow> Position list \<Rightarrow> GlobeState \<Rightarrow> GlobeState" where
  "startAnimation dp data st =
     (case (globeRef st, globeData st) of
        (Some gl, Some gd) \<Rightarrow>
          st\<lparr>globeRef := Some (gl
            \<lparr>arcsData := data,
             arcStartLat := startLat,
             arcStartLng := startLng,
             arcEndLat := endLat,
             arcEndLng := endLng,
             arcColor := color,
             arcAltitude := arcAlt,
             arcStroke := strokeAccessor,
             arcDashLength := arcLength dp,
             arcDashInitialGap := (\<lambda>e. timesNum (order e) (Num 1)),
             arcDashGap := Num 15,
             arcDashAnimateTime := (\<lambda>e. arcTime dp),
             pointsData := gd,
             pointsMerge := True,
             pointAltitude := Num 0,
             pointRadius := Num 2,
             ringsData := [],
             ringColor := pt_color\<rparr>)\<rparr>
      | _ \<Rightarrow> st)"

section \<open>genRandomNumbers and the ring interval\<close>

text \<open>
  \<open>Math.random\<close> is a source of values: \<open>rnd k\<close> is what its call number \<open>k\<close> returns, a
  value that is at least 0 and less than 1. A function that draws takes the number of
  the next call and returns the number of the call after its last one.

  One draw \<open>Math.floor(Math.random() * (max - min)) + min\<close>, with \<open>lo\<close> for \<open>min\<close> and \<open>hi\<close>
  for \<open>max\<close>. The ring interval passes integers for both and for \<open>count\<close>. The product is
  exact here, where the source rounds it to the nearest double.
\<close>

definition drawAt :: "(nat \<Rightarrow> rat) \<Rightarrow> int \<Rightarrow> int \<Rightarrow> nat \<Rightarrow> int" where
  "drawAt rnd lo hi k = \<lfloor>rnd k * of_int (hi - lo)\<rfloor> + lo"

text \<open>The loop of \<open>genRandomNumbers\<close>. It may retry for ever: then the result is
  \<open>None\<close>.\<close>

partial_function (option) genRandomLoop ::
    "(nat \<Rightarrow> rat) \<Rightarrow> int \<Rightarrow> int \<Rightarrow> int \<Rightarrow> int list \<Rightarrow> nat \<Rightarrow> (int list \<times> nat) option" where
  "genRandomLoop rnd lo hi count arr k =
     (if int (length arr) < count
      then (let rv = drawAt rnd lo hi k
            in if rv \<notin> set arr
               then genRandomLoop rnd lo hi count (arr @ [rv]) (Suc k)
               else genRandomLoop rnd lo hi count arr (Suc k))
      else Some (arr, k))"

definition genRandomNumbers ::
    "(nat \<Rightarrow> rat) \<Rightarrow> nat \<Rightarrow> int \<Rightarrow> int \<Rightarrow> int \<Rightarrow> (int list \<times> nat) option" where
  "genRandomNumbers rnd k lo hi count = genRandomLoop rnd lo hi count [] k"

text \<open>\<open>Math.floor((data.length * 4) / 5)\<close>.\<close>

definition ringCount :: "nat \<Rightarrow> nat" where
  "ringCount n = (n * 4) div 5"

text \<open>The effect that sets the interval up: it starts a timer only past its guard.\<close>

definition ringEffectStartsTimer :: "Position list \<Rightarrow> GlobeState \<Rightarrow> bool" where
  "ringEffectStartsTimer data st =
     (\<not> (globeRef st = None \<or> globeData st = None \<or> length data = 0))"

text \<open>One run of the interval's callback: the new state and the next call number of
  the random source, or \<open>None\<close> when the draw never ends.\<close>

definition ringTick ::
    "(nat \<Rightarrow> rat) \<Rightarrow> nat \<Rightarrow> Position list \<Rightarrow> GlobeState \<Rightarrow> (GlobeState \<times> nat) option" where
  "ringTick rnd k data st =
     (case (globeRef st, globeData st) of
        (Some gl, Some gd) \<Rightarrow>
          if length data = 0 then Some (st, k)
          else (case genRandomNumbers rnd k 0 (int (length data)) (int (ringCount (length data))) of
                  None \<Rightarrow> None
                | Some (numbersOfRings, k') \<Rightarrow>
                    Some (st\<lparr>globeRef := Some (gl
                            \<lparr>ringsData := filterIndexed (\<lambda>d i. int i \<in> set numbersOfRings) gd\<rparr>)\<rparr>,
                          k'))
      | _ \<Rightarrow> Some (st, k))"


section \<open>Reference definitions for the colour decoding\<close>

text \<open>
  The statement of what \<open>hexToRgb\<close> has to compute is kept apart from the code: a table
  of the hex digits and their values, the value of a two-digit pair, and the shape of a
  colour string of \<open>n\<close> hex digits \<open>ds\<close> with an optional leading \<open>#\<close>.
\<close>

definition hexDigits :: "(char \<times> nat) list" where
  "hexDigits = zip ''0123456789abcdef'' [0..<16] @ zip ''ABCDEF'' [10..<16]"

definition isHexChar :: "char \<Rightarrow> bool" where
  "isHexChar c = (c \<in> set ''0123456789abcdefABCDEF'')"

definition hexValue :: "char \<Rightarrow> nat" where
  "hexValue c = (case map_of hexDigits c of Some v \<Rightarrow> v | None \<Rightarrow> 0)"

definition hexPair :: "char \<Rightarrow> char \<Rightarrow> nat" where
  "hexPair h l = 16 * hexValue h + hexValue l"

definition hexTriple :: "string \<Rightarrow> rgb" where
  "hexTriple ds =
     \<lparr>r = hexPair (ds ! 0) (ds ! 1), g = hexPair (ds ! 2) (ds ! 3), b = hexPair (ds ! 4) (ds ! 5)\<rparr>"

definition doubleDigits :: "string \<Rightarrow> string" where
  "doubleDigits ds = concat (map (\<lambda>c. [c, c]) ds)"

definition hexColor :: "nat \<Rightarrow> string \<Rightarrow> string \<Rightarrow> bool" where
  "hexColor n ds s = (length ds = n \<and> list_all isHexChar ds \<and> (s = ds \<or> s = CHR ''#'' # ds))"


section \<open>Reference definitions for the point dataset\<close>

text \<open>The two points an arc with the decoded colour \<open>c\<close> gives rise to.\<close>

definition startPoint :: "(rat \<Rightarrow> string) \<Rightarrow> Props \<Rightarrow> rgb \<Rightarrow> Position \<Rightarrow> RenderPoint" where
  "startPoint fmt dp c arc =
     \<lparr>pt_size = pointSize dp, pt_order = order arc, pt_color = colorClosure fmt c,
      lat = startLat arc, lng = startLng arc\<rparr>"

definition endPoint :: "(rat \<Rightarrow> string) \<Rightarrow> Props \<Rightarrow> rgb \<Rightarrow> Position \<Rightarrow> RenderPoint" where
  "endPoint fmt dp c arc =
     \<lparr>pt_size = pointSize dp, pt_order = order arc, pt_color = colorClosure fmt c,
      lat = endLat arc, lng = endLng arc\<rparr>"

definition decodable :: "Position \<Rightarrow> bool" where
  "decodable arc = (hexToRgb (color arc) \<noteq> None)"

text \<open>The emission order: arcs in input order, the start of an arc before its end,
  nothing for an arc whose colour does not decode.\<close>

definition arcPoints :: "(rat \<Rightarrow> string) \<Rightarrow> Props \<Rightarrow> Position \<Rightarrow> RenderPoint list" where
  "arcPoints fmt dp arc =
     (case hexToRgb (color arc) of
        Some c \<Rightarrow> [startPoint fmt dp c arc, endPoint fmt dp c arc]
      | None \<Rightarrow> [])"

definition emitted :: "(rat \<Rightarrow> string) \<Rightarrow> Props \<Rightarrow> Position list \<Rightarrow> RenderPoint list" where
  "emitted fmt dp arcs = concat (map (arcPoints fmt dp) arcs)"

definition coord :: "RenderPoint \<Rightarrow> number \<times> number" where
  "coord p = (lat p, lng p)"

definition endpoints :: "Position \<Rightarrow> (number \<times> number) list" where
  "endpoints arc = [(startLat arc, startLng arc), (endLat arc, endLng arc)]"

definition numericPoint :: "RenderPoint \<Rightarrow> bool" where
  "numericPoint p = (isNum (lat p) \<and> isNum (lng p))"

definition numericArc :: "Position \<Rightarrow> bool" where
  "numericArc arc =
     (isNum (startLat arc) \<and> isNum (startLng arc) \<and> isNum (endLat arc) \<and> isNum (endLng arc))"

text \<open>Deduplication that keeps the first point of every coordinate pair and the
  order of the points it keeps.\<close>

fun firstOccurrences :: "RenderPoint list \<Rightarrow> RenderPoint list" where
  "firstOccurrences [] = []"
| "firstOccurrences (p # ps) = p # filter (\<lambda>q. coord q \<noteq> coord p) (firstOccurrences ps)"

text \<open>The text \<open>rgba(x, y, z, a)\<close>.\<close>

definition rgbaText :: "nat \<Rightarrow> nat \<Rightarrow> nat \<Rightarrow> string \<Rightarrow> string" where
  "rgbaText x y z a =
     concat [''rgba('', showNat x, '', '', showNat y, '', '', showNat z, '', '', a, '')'']"

section \<open>Sample inputs\<close>

text \<open>The arcs and the configuration that \<open>App\<close> mounts the globe with.\<close>

definition mkArc :: "rat \<Rightarrow> rat \<Rightarrow> rat \<Rightarrow> rat \<Rightarrow> rat \<Rightarrow> rat \<Rightarrow> string \<Rightarrow> Position" where
  "mkArc n sLat sLng eLat eLng alt col =
     \<lparr>order = Num n, startLat = Num sLat, startLng = Num sLng, endLat = Num eLat,
      endLng = Num eLng, arcAlt = Num alt, color = col\<rparr>"

definition mockData :: "Position list" where
  "mockData =
     [mkArc 1 (407128 / 10000) (- 740060 / 10000) (340522 / 10000) (- 1182437 / 10000) (5 / 10) ''#ff0000'',
      mkArc 2 (515074 / 10000) (- 1278 / 10000) (356895 / 10000) (1396917 / 10000) (7 / 10) ''#00ff00'',
      mkArc 3 (- 338688 / 10000) (1512093 / 10000) (399042 / 10000) (1164074 / 10000) (6 / 10) ''#0000ff'',
      mkArc 4 (340522 / 10000) (- 1182437 / 10000) (515074 / 10000) (- 1278 / 10000) (5 / 10) ''#ffff00'',
      mkArc 5 (300444 / 10000) (312357 / 10000) (282307 / 10000) (323942 / 10000) (3 / 10) ''#FFA500'',
      mkArc 6 (310461 / 10000) (299553 / 10000) (299782 / 10000) (328878 / 10000) (4 / 10) ''#8A2BE2'']"

definition mockGlobeConfig :: GlobeConfig where
  "mockGlobeConfig =
     \<lparr>opt_pointSize = Some (Num (15 / 10)),
      opt_atmosphereColor = Some ''#ffffff'',
      opt_showAtmosphere = Some True,
      opt_atmosphereAltitude = Some (Num (15 / 100)),
      opt_polygonColor = Some ''rgba(255,255,255,0.7)'',
      opt_globeColor = Some ''#1d072e'',
      opt_emissive = Some ''#000000'',
      opt_emissiveIntensity = Some (Num (1 / 10)),
      opt_shininess = Some (Num (9 / 10)),
      opt_arcTime = Some (Num 1500),
      opt_arcLength = Some (Num (7 / 10)),
      opt_rings = Some (Num 2),
      opt_maxRings = Some (Num 5)\<rparr>"

text \<open>A configuration that sets no option, a conversion for fractions that prints
  nothing, and arcs for small examples.\<close>

definition emptyConfig :: GlobeConfig where
  "emptyConfig =
     \<lparr>opt_pointSize = None, opt_atmosphereColor = None, opt_showAtmosphere = None,
      opt_atmosphereAltitude = None, opt_polygonColor = None, opt_globeColor = None,
      opt_emissive = None, opt_emissiveIntensity = None, opt_shininess = None,
      opt_arcTime = None, opt_arcLength = None, opt_rings = None, opt_maxRings = None\<rparr>"

definition noFraction :: "rat \<Rightarrow> string" where
  "noFraction q = []"

definition blueArc :: Position where
  "blueArc = mkArc 1 10 20 30 40 (1 / 2) ''blue''"

definition redArc :: Position where
  "redArc = mkArc 2 50 60 70 80 (1 / 2) ''#f00''"



section \<open>Reference definitions for the animation driver\<close>

text \<open>The number of distinct indices among the \<open>m\<close> draws that start with call \<open>k\<close>.\<close>

definition distinctDraws :: "(nat \<Rightarrow> rat) \<Rightarrow> int \<Rightarrow> int \<Rightarrow> nat \<Rightarrow> nat \<Rightarrow> nat" where
  "distinctDraws rnd lo hi k m = length (remdups (map (drawAt rnd lo hi) [k..<k + m]))"

text \<open>A random source keeps to its range when every value is at least 0 and less
  than 1.\<close>

definition unitSource :: "(nat \<Rightarrow> rat) \<Rightarrow> bool" where
  "unitSource rnd = (\<forall>k. 0 \<le> rnd k \<and> rnd k < 1)"

text \<open>A random source is fair for \<open>n\<close> indices when every index from 0 to \<open>n - 1\<close> is
  still drawn at or after any call, as on a source of uniform draws.\<close>

definition fairSource :: "(nat \<Rightarrow> rat) \<Rightarrow> nat \<Rightarrow> bool" where
  "fairSource rnd n = (\<forall>k. \<forall>i\<in>{0..<int n}. \<exists>j\<ge>k. drawAt rnd 0 (int n) j = i)"

text \<open>The elements of a list at the positions that are among the given indices.\<close>

definition atIndices :: "'a list \<Rightarrow> int list \<Rightarrow> 'a list" where
  "atIndices xs nums = map (\<lambda>i. xs ! i) (filter (\<lambda>i. int i \<in> set nums) [0..<length xs])"

text \<open>Of the \<open>N\<close> equally spaced values \<open>0, 1/N, \<dots>, (N-1)/N\<close> that a random call may
  return, the number of those for which the stroke accessor selects the width \<open>v\<close>.\<close>

definition gridValue :: "nat \<Rightarrow> nat \<Rightarrow> rat" where
  "gridValue N j = of_nat j / of_nat N"

definition strokeCount :: "nat \<Rightarrow> number \<Rightarrow> nat" where
  "strokeCount N v =
     length (filter (\<lambda>j. strokeAccessor (gridValue N j) blueArc = Some v) [0..<N])"

text \<open>The numeric options of the merged configuration.\<close>

definition configNumbers :: "Props \<Rightarrow> number list" where
  "configNumbers dp =
     [pointSize dp, atmosphereAltitude dp, emissiveIntensity dp, shininess dp,
      arcTime dp, arcLength dp, rings dp, maxRings dp]"

text \<open>Random sources for examples: one that returns 0 on every call, and one that
  returns 0, 1/3, 2/3 in turn.\<close>

definition zeroSource :: "nat \<Rightarrow> rat" where
  "zeroSource k = 0"

definition thirdsSource :: "nat \<Rightarrow> rat" where
  "thirdsSource k = of_nat (k mod 3) / 3"

text \<open>A globe object on which nothing is configured yet, and the component state with
  that globe and a given point dataset.\<close>

definition freshGlobe :: ThreeGlobe where
  "freshGlobe =
     \<lparr>arcsData = [], arcStartLat = (\<lambda>e. NaN), arcStartLng = (\<lambda>e. NaN),
      arcEndLat = (\<lambda>e. NaN), arcEndLng = (\<lambda>e. NaN), arcColor = (\<lambda>e. []),
      arcAltitude = (\<lambda>e. NaN), arcStroke = (\<lambda>u e. None), arcDashLength = NaN,
      arcDashInitialGap = (\<lambda>e. NaN), arcDashGap = NaN, arcDashAnimateTime = (\<lambda>e. NaN),
      pointsData = [], pointsMerge = False, pointAltitude = NaN, pointRadius = NaN,
      ringsData = [], ringColor = (\<lambda>p t. [])\<rparr>"

definition mounted :: "RenderPoint list \<Rightarrow> GlobeState" where
  "mounted gd = \<lparr>globeRef = Some freshGlobe, globeData = Some gd\<rparr>"

text \<open>A source that returns 0, 1/10, \<dots>, 9/10 in turn.\<close>

definition tenthsSource :: "nat \<Rightarrow> rat" where
  "tenthsSource k = of_nat (k mod 10) / 10"


section \<open>Colour decoding\<close>

lemma upt16: "[0..<16] = [0, 1, 2, 3, 4, 5, 6, 7, 8, 9, 10, 11, 12, 13, 14, 15 :: nat]"
  by (simp add: upt_rec)

lemma upt1016: "[10..<16] = [10, 11, 12, 13, 14, 15 :: nat]"
  by (simp add: upt_rec)

lemma hexClass_char_of:
  "hexClass c \<Longrightarrow> \<exists>n::nat. c = char_of n \<and>
     ((48 \<le> n \<and> n \<le> 57) \<or> (97 \<le> n \<and> n \<le> 102) \<or> (65 \<le> n \<and> n \<le> 70))"
  unfolding hexClass_def Let_def
  by (rule exI[of _ "of_char c :: nat"]) simp

lemma hexClass_imp: "hexClass c \<Longrightarrow> isHexChar c"
proof -
  assume "hexClass c"
  then obtain n :: nat where c: "c = char_of n"
    and n: "(48 \<le> n \<and> n \<le> 57) \<or> (97 \<le> n \<and> n \<le> 102) \<or> (65 \<le> n \<and> n \<le> 70)"
    using hexClass_char_of by blast
  from n have "n \<in> {48, 49, 50, 51, 52, 53, 54, 55, 56, 57,
                    97, 98, 99, 100, 101, 102, 65, 66, 67, 68, 69, 70}"
    by (simp; arith)
  then show ?thesis unfolding c isHexChar_def
    by (elim insertE emptyE; simp add: char_of_eq_iff)
qed

lemma isHexChar_imp: "isHexChar c \<Longrightarrow> hexClass c"
  unfolding isHexChar_def hexClass_def by auto

lemma hexClass_iff: "hexClass c = isHexChar c"
  using hexClass_imp isHexChar_imp by blast

lemma digitValue_hexValue: "isHexChar c \<Longrightarrow> digitValue c = hexValue c"
  unfolding isHexChar_def digitValue_def hexValue_def hexDigits_def upt16 upt1016 by auto

lemma isHexChar_not_hash: "isHexChar c \<Longrightarrow> c \<noteq> CHR ''#''"
  unfolding isHexChar_def by auto

lemma optHash_cases: "s = optHash s \<or> s = CHR ''#'' # optHash s"
  by (cases s) auto

lemma hexValue_less: "hexValue c < 16"
  unfolding hexValue_def hexDigits_def upt16 upt1016 by (simp split: option.splits)

lemma parseInt16_pair: "isHexChar h \<Longrightarrow> isHexChar l \<Longrightarrow> parseInt16 [h, l] = hexPair h l"
  by (simp add: parseInt16_def hexPair_def digitValue_hexValue)

lemma hexPair_less: "hexPair h l < 256"
  using hexValue_less[of h] hexValue_less[of l] unfolding hexPair_def by arith

lemma length6E:
  assumes "length ds = 6"
  obtains c1 c2 c3 c4 c5 c6 where "ds = [c1, c2, c3, c4, c5, c6]"
  using assms by (auto simp: numeral_eq_Suc length_Suc_conv)

lemma length3E:
  assumes "length ds = 3"
  obtains c1 c2 c3 where "ds = [c1, c2, c3]"
  using assms by (auto simp: numeral_eq_Suc length_Suc_conv)

lemma hexToRgb_six:
  assumes "hexColor 6 ds s"
  shows "hexToRgb s = Some (hexTriple ds)"
proof -
  from assms have len: "length ds = 6" and hex: "list_all isHexChar ds"
    and s: "s = ds \<or> s = CHR ''#'' # ds" by (auto simp: hexColor_def)
  from len obtain c1 c2 c3 c4 c5 c6 where ds: "ds = [c1, c2, c3, c4, c5, c6]"
    by (rule length6E)
  from hex have h: "isHexChar c1" "isHexChar c2" "isHexChar c3"
      "isHexChar c4" "isHexChar c5" "isHexChar c6"
    by (simp_all add: ds)
  from s h(1) have oh: "optHash s = ds" by (auto simp: ds isHexChar_not_hash)
  show ?thesis
    by (simp add: hexToRgb_def oh ds hexClass_iff h parseInt16_pair hexTriple_def)
qed

lemma hexToRgb_three:
  assumes "hexColor 3 ds s"
  shows "hexToRgb s = Some (hexTriple (doubleDigits ds))"
proof -
  from assms have len: "length ds = 3" and hex: "list_all isHexChar ds"
    and s: "s = ds \<or> s = CHR ''#'' # ds" by (auto simp: hexColor_def)
  from len obtain c1 c2 c3 where ds: "ds = [c1, c2, c3]"
    by (rule length3E)
  from hex have h: "isHexChar c1" "isHexChar c2" "isHexChar c3"
    by (simp_all add: ds)
  from s h(1) have oh: "optHash s = ds" by (auto simp: ds isHexChar_not_hash)
  show ?thesis
    by (simp add: hexToRgb_def oh ds hexClass_iff h parseInt16_pair hexTriple_def doubleDigits_def
        isHexChar_not_hash)
qed

lemma hexToRgb_Some_hexColor:
  assumes "hexToRgb s = Some c"
  shows "\<exists>ds. hexColor 6 ds s \<or> hexColor 3 ds s"
proof (cases "shorthandRegex s")
  case (Some t)
  then have "length (optHash s) = 3 \<and> list_all isHexChar (optHash s)"
    by (auto simp: hexClass_iff split: list.splits if_splits)
  then have "hexColor 3 (optHash s) s"
    using optHash_cases[of s] by (simp add: hexColor_def)
  then show ?thesis by blast
next
  case None
  with assms have "fullRegex s \<noteq> None"
    by (auto simp: hexToRgb_def split: option.splits)
  then have "length (optHash s) = 6 \<and> list_all isHexChar (optHash s)"
    by (auto simp: hexClass_iff split: list.splits if_splits)
  then have "hexColor 6 (optHash s) s"
    using optHash_cases[of s] by (simp add: hexColor_def)
  then show ?thesis by blast
qed

text \<open>
  Claim C3. For every string \<open>s\<close>: when \<open>s\<close> is six hex digits \<open>ds\<close> in either case, with
  or without a leading \<open>#\<close>, \<open>hexToRgb\<close> returns the triple of the values of the three
  digit pairs of \<open>ds\<close>; when \<open>s\<close> is three hex digits, each digit is doubled first and the
  six digits are decoded in the same way; when \<open>s\<close> has neither shape the result is
  \<open>null\<close>. Every component of a result is a byte.
\<close>

theorem hexToRgb_decodes:
  "(hexColor 6 ds s \<longrightarrow> hexToRgb s = Some (hexTriple ds)) \<and>
   (hexColor 3 ds s \<longrightarrow> hexToRgb s = Some (hexTriple (doubleDigits ds))
       \<and> hexToRgb s = hexToRgb (doubleDigits ds)) \<and>
   ((\<forall>ds'. \<not> hexColor 6 ds' s \<and> \<not> hexColor 3 ds' s) \<longrightarrow> hexToRgb s = None) \<and>
   (\<forall>c. hexToRgb s = Some c \<longrightarrow> r c < 256 \<and> g c < 256 \<and> b c < 256)"
proof (intro conjI impI allI)
  assume "hexColor 6 ds s"
  then show "hexToRgb s = Some (hexTriple ds)" by (rule hexToRgb_six)
next
  assume h: "hexColor 3 ds s"
  then show "hexToRgb s = Some (hexTriple (doubleDigits ds))" by (rule hexToRgb_three)
next
  assume h: "hexColor 3 ds s"
  then obtain c1 c2 c3 where ds: "ds = [c1, c2, c3]"
    by (auto simp: hexColor_def elim: length3E)
  with h have "hexColor 6 (doubleDigits ds) (doubleDigits ds)"
    by (simp add: hexColor_def doubleDigits_def)
  then have "hexToRgb (doubleDigits ds) = Some (hexTriple (doubleDigits ds))"
    by (rule hexToRgb_six)
  with hexToRgb_three[OF h] show "hexToRgb s = hexToRgb (doubleDigits ds)" by simp
next
  assume "\<forall>ds'. \<not> hexColor 6 ds' s \<and> \<not> hexColor 3 ds' s"
  then show "hexToRgb s = None"
    using hexToRgb_Some_hexColor[of s] by (cases "hexToRgb s") auto
next
  fix c assume c: "hexToRgb s = Some c"
  then obtain ds' where "hexColor 6 ds' s \<or> hexColor 3 ds' s"
    using hexToRgb_Some_hexColor by blast
  then have "c = hexTriple ds' \<or> c = hexTriple (doubleDigits ds')"
    using hexToRgb_six[of ds' s] hexToRgb_three[of ds' s] c by auto
  then show "r c < 256" "g c < 256" "b c < 256"
    by (auto simp: hexTriple_def hexPair_less)
qed

theorem hexToRgb_decodes_witness:
  "hexToRgb ''#ff0000'' = Some \<lparr>r = 255, g = 0, b = 0\<rparr> \<and>
   hexToRgb ''00ff00'' = Some \<lparr>r = 0, g = 255, b = 0\<rparr> \<and>
   hexToRgb ''#0f0'' = Some \<lparr>r = 0, g = 255, b = 0\<rparr> \<and>
   hexToRgb ''#0f0'' = hexToRgb ''00ff00'' \<and>
   hexToRgb ''blue'' = None \<and> hexToRgb ''#12'' = None"
proof -
  have a: "hexColor 6 ''ff0000'' ''#ff0000''"
    by (simp add: hexColor_def isHexChar_def)
  have b: "hexColor 6 ''00ff00'' ''00ff00''"
    by (simp add: hexColor_def isHexChar_def)
  have c: "hexColor 3 ''0f0'' ''#0f0''"
    by (simp add: hexColor_def isHexChar_def)
  have t1: "hexTriple ''ff0000'' = \<lparr>r = 255, g = 0, b = 0\<rparr>"
    by (simp add: hexTriple_def hexPair_def hexValue_def hexDigits_def upt16 upt1016)
  have t2: "hexTriple ''00ff00'' = \<lparr>r = 0, g = 255, b = 0\<rparr>"
    by (simp add: hexTriple_def hexPair_def hexValue_def hexDigits_def upt16 upt1016)
  have d: "doubleDigits ''0f0'' = ''00ff00''"
    by (simp add: doubleDigits_def)
  have e: "\<forall>ds'. \<not> hexColor 6 ds' ''blue'' \<and> \<not> hexColor 3 ds' ''blue''"
    by (auto simp: hexColor_def isHexChar_def)
  have f: "\<forall>ds'. \<not> hexColor 6 ds' ''#12'' \<and> \<not> hexColor 3 ds' ''#12''"
    by (auto simp: hexColor_def isHexChar_def)
  from hexToRgb_decodes[of "''ff0000''" "''#ff0000''"] a t1
    hexToRgb_decodes[of "''00ff00''" "''00ff00''"] b t2
    hexToRgb_decodes[of "''0f0''" "''#0f0''"] c d
    hexToRgb_decodes[of _ "''blue''"] e
    hexToRgb_decodes[of _ "''#12''"] f
  show ?thesis by simp
qed


section \<open>The point dataset\<close>

lemma buildLoop_emitted: "buildLoop fmt dp arcs points = points @ emitted fmt dp arcs"
  by (induction arcs arbitrary: points)
     (simp_all add: emitted_def arcPoints_def startPoint_def endPoint_def split: option.splits)

lemma filterIndexed_Nil: "filterIndexed P [] = []"
  by (simp add: filterIndexed_def)

lemma filterIndexed_Cons:
  "filterIndexed P (x # xs) = (if P x 0 then [x] else []) @ filterIndexed (\<lambda>v i. P v (Suc i)) xs"
proof -
  have "zip (x # xs) [0..<length (x # xs)]
      = (x, 0) # map (\<lambda>(v, i). (v, Suc i)) (zip xs [0..<length xs])"
    by (simp add: upt_conv_Cons map_Suc_upt[symmetric] zip_map2 del: upt_Suc)
  then show ?thesis
    by (simp add: filterIndexed_def filter_map o_def split_def)
qed

lemma filterIndexed_conj:
  "filterIndexed (\<lambda>v i. Q v \<and> P v i) xs = filter Q (filterIndexed P xs)"
  by (simp add: filterIndexed_def filter_map o_def split_def conj_commute)

lemma findIndex_ge: "- 1 \<le> findIndex P xs"
  by (induction xs) (simp_all add: Let_def)

lemma findIndex_Cons_Suc:
  "findIndex P (x # xs) = 1 + int i \<longleftrightarrow> \<not> P x \<and> findIndex P xs = int i"
  using findIndex_ge[of P xs] by (auto simp: Let_def)

lemma findIndex_Cons_0: "findIndex P (x # xs) = 0 \<longleftrightarrow> P x"
  using findIndex_ge[of P xs] by (auto simp: Let_def)

lemma sameLatLng_iff:
  "sameLatLng p q \<longleftrightarrow> numericPoint p \<and> numericPoint q \<and> coord p = coord q"
  by (cases "lat p"; cases "lat q"; cases "lng p"; cases "lng q")
     (simp_all add: sameLatLng_def numericPoint_def coord_def)

lemma filteredPoints_Cons:
  "filteredPoints (p # ps)
     = (if sameLatLng p p then [p] else []) @ filter (\<lambda>q. \<not> sameLatLng p q) (filteredPoints ps)"
  unfolding filteredPoints_def
  by (simp add: filterIndexed_Cons findIndex_Cons_Suc findIndex_Cons_0 filterIndexed_conj
      del: findIndex.simps)

lemma set_firstOccurrences: "set (firstOccurrences ps) \<subseteq> set ps"
  by (induction ps) auto

lemma filteredPoints_firstOccurrences:
  "filteredPoints ps = firstOccurrences (filter numericPoint ps)"
proof (induction ps)
  case Nil
  show ?case by (simp add: filteredPoints_def filterIndexed_Nil)
next
  case (Cons p ps)
  let ?ys = "firstOccurrences (filter numericPoint ps)"
  have num: "\<forall>q\<in>set ?ys. numericPoint q"
    using set_firstOccurrences[of "filter numericPoint ps"] by auto
  show ?case
  proof (cases "numericPoint p")
    case True
    have "filter (\<lambda>q. \<not> sameLatLng p q) ?ys = filter (\<lambda>q. coord q \<noteq> coord p) ?ys"
      using num True by (intro filter_cong) (auto simp: sameLatLng_iff)
    then show ?thesis using True Cons by (simp add: filteredPoints_Cons sameLatLng_iff)
  next
    case False
    then show ?thesis using Cons by (simp add: filteredPoints_Cons sameLatLng_iff)
  qed
qed

lemma buildData_firstOccurrences:
  "buildData fmt dp arcs = firstOccurrences (filter numericPoint (emitted fmt dp arcs))"
  by (simp add: buildData_def buildLoop_emitted filteredPoints_firstOccurrences)

lemma coord_image_filter: "coord ` {q \<in> A. coord q \<noteq> c} = coord ` A - {c}"
  by auto

lemma coords_firstOccurrences: "coord ` set (firstOccurrences ps) = coord ` set ps"
proof (induction ps)
  case Nil
  show ?case by simp
next
  case (Cons p ps)
  have "coord ` set (firstOccurrences (p # ps))
      = insert (coord p) (coord ` set (firstOccurrences ps) - {coord p})"
    by (simp add: coord_image_filter)
  also have "\<dots> = insert (coord p) (coord ` set ps)"
    by (simp add: Cons.IH)
  finally show ?case by simp
qed

lemma distinct_firstOccurrences: "distinct (map coord (firstOccurrences ps))"
proof (induction ps)
  case Nil
  show ?case by simp
next
  case (Cons p ps)
  then show ?case by (auto simp: distinct_map_filter)
qed

lemma subseq_firstOccurrences: "subseq (firstOccurrences ps) ps"
proof (induction ps)
  case Nil
  show ?case by simp
next
  case (Cons p ps)
  have "subseq (filter (\<lambda>q. coord q \<noteq> coord p) (firstOccurrences ps)) (firstOccurrences ps)"
    by (rule subseq_filter_left)
  from this Cons.IH have "subseq (filter (\<lambda>q. coord q \<noteq> coord p) (firstOccurrences ps)) ps"
    by (rule subseq_order.trans)
  then show ?case by simp
qed

lemma find_firstOccurrences:
  "q \<in> set (firstOccurrences ps) \<Longrightarrow> find (\<lambda>p. coord p = coord q) ps = Some q"
  by (induction ps) auto

lemma firstOccurrences_distinct: "distinct (map coord ps) \<Longrightarrow> firstOccurrences ps = ps"
proof (induction ps)
  case Nil
  show ?case by simp
next
  case (Cons p ps)
  then have "\<forall>q\<in>set ps. coord q \<noteq> coord p" by (auto simp: image_iff)
  then have "filter (\<lambda>q. coord q \<noteq> coord p) ps = ps" by simp
  with Cons show ?case by simp
qed

lemma emitted_Cons: "emitted fmt dp (a # arcs) = arcPoints fmt dp a @ emitted fmt dp arcs"
  by (simp add: emitted_def)

lemma emitted_origin:
  "p \<in> set (emitted fmt dp arcs) \<Longrightarrow>
   \<exists>a\<in>set arcs. \<exists>c. hexToRgb (color a) = Some c \<and> (p = startPoint fmt dp c a \<or> p = endPoint fmt dp c a)"
proof (induction arcs)
  case Nil
  then show ?case by (simp add: emitted_def)
next
  case (Cons a arcs)
  from Cons.prems consider "p \<in> set (arcPoints fmt dp a)" | "p \<in> set (emitted fmt dp arcs)"
    by (auto simp: emitted_Cons)
  then show ?case
  proof cases
    case 1
    then show ?thesis
      by (cases "hexToRgb (color a)") (auto simp: arcPoints_def)
  next
    case 2
    with Cons.IH show ?thesis by auto
  qed
qed

lemma emitted_numeric:
  "list_all numericArc arcs \<Longrightarrow> filter numericPoint (emitted fmt dp arcs) = emitted fmt dp arcs"
  by (induction arcs)
     (auto simp: emitted_Cons emitted_def arcPoints_def numericArc_def numericPoint_def
        startPoint_def endPoint_def split: option.splits)

lemma emitted_decodable:
  "list_all decodable arcs \<Longrightarrow> map coord (emitted fmt dp arcs) = concat (map endpoints arcs)"
  by (induction arcs)
     (auto simp: emitted_Cons emitted_def arcPoints_def decodable_def endpoints_def coord_def
        startPoint_def endPoint_def split: option.splits)


lemma buildData_subset: "set (buildData fmt dp arcs) \<subseteq> set (emitted fmt dp arcs)"
  using set_firstOccurrences[of "filter numericPoint (emitted fmt dp arcs)"]
  by (auto simp: buildData_firstOccurrences)

lemma buildData_origin:
  "p \<in> set (buildData fmt dp arcs) \<Longrightarrow>
   \<exists>a\<in>set arcs. \<exists>c. hexToRgb (color a) = Some c \<and> (p = startPoint fmt dp c a \<or> p = endPoint fmt dp c a)"
  using buildData_subset emitted_origin by blast




section \<open>Evaluations used in the examples\<close>

lemma hexToRgb_f00: "hexToRgb ''#f00'' = Some \<lparr>r = 255, g = 0, b = 0\<rparr>"
  by (simp add: hexToRgb_def hexClass_def parseInt16_def digitValue_def)

lemma showNat_255: "showNat 255 = ''255''"
  by (simp add: showNat.simps char_of_eq_iff)

lemma showNat_0: "showNat 0 = ''0''"
  by (simp add: showNat.simps char_of_eq_iff)

lemma hexToRgb_blue: "hexToRgb ''blue'' = None"
  by (simp add: hexToRgb_def hexClass_def)


lemma hexToRgb_ff0000: "hexToRgb ''#ff0000'' = Some \<lparr>r = 255, g = 0, b = 0\<rparr>"
  by (simp add: hexToRgb_def hexClass_def parseInt16_def digitValue_def)

lemma hexToRgb_00ff00: "hexToRgb ''#00ff00'' = Some \<lparr>r = 0, g = 255, b = 0\<rparr>"
  by (simp add: hexToRgb_def hexClass_def parseInt16_def digitValue_def)

lemma hexToRgb_ffff00: "hexToRgb ''#ffff00'' = Some \<lparr>r = 255, g = 255, b = 0\<rparr>"
  by (simp add: hexToRgb_def hexClass_def parseInt16_def digitValue_def)

lemma mock_0: "mockData ! 0 = mkArc 1 (407128 / 10000) (- 740060 / 10000) (340522 / 10000) (- 1182437 / 10000) (5 / 10) ''#ff0000''"
  by (simp add: mockData_def)

lemma mock_3: "mockData ! 3 = mkArc 4 (340522 / 10000) (- 1182437 / 10000) (515074 / 10000) (- 1278 / 10000) (5 / 10) ''#ffff00''"
  by (simp add: mockData_def)

lemma mock_take2: "take 2 mockData = [mkArc 1 (407128 / 10000) (- 740060 / 10000) (340522 / 10000) (- 1182437 / 10000) (5 / 10) ''#ff0000'',
      mkArc 2 (515074 / 10000) (- 1278 / 10000) (356895 / 10000) (1396917 / 10000) (7 / 10) ''#00ff00'']"
  by (simp add: mockData_def)

section \<open>Properties of the point dataset\<close>

text \<open>
  Claim C1, as amended. For every arc list whose coordinates are numbers, the dataset
  that \<open>_buildData\<close> builds is the list of emitted points (arcs in input order, the
  start of an arc before its end, arcs whose colour does not decode emitting nothing)
  with only the first point of every coordinate pair kept: no coordinate pair occurs
  twice, every emitted coordinate pair occurs, each kept point is the first emitted
  point of its coordinate pair, and the kept points are in emission order. For \<open>n\<close>
  arcs whose colours all decode and whose endpoints are pairwise distinct the dataset
  has exactly \<open>2n\<close> entries.
\<close>

theorem buildData_first_occurrence_wins:
  assumes "list_all numericArc arcs"
  shows "buildData fmt dp arcs = firstOccurrences (emitted fmt dp arcs) \<and>
         distinct (map coord (buildData fmt dp arcs)) \<and>
         coord ` set (buildData fmt dp arcs) = coord ` set (emitted fmt dp arcs) \<and>
         (\<forall>q\<in>set (buildData fmt dp arcs).
             find (\<lambda>p. coord p = coord q) (emitted fmt dp arcs) = Some q) \<and>
         subseq (buildData fmt dp arcs) (emitted fmt dp arcs) \<and>
         (list_all decodable arcs \<and> distinct (concat (map endpoints arcs))
            \<longrightarrow> length (buildData fmt dp arcs) = 2 * length arcs)"
proof -
  have eq: "buildData fmt dp arcs = firstOccurrences (emitted fmt dp arcs)"
    using assms by (simp add: buildData_firstOccurrences emitted_numeric)
  have len: "length (buildData fmt dp arcs) = 2 * length arcs"
    if d: "list_all decodable arcs" and e: "distinct (concat (map endpoints arcs))"
  proof -
    have m: "map coord (emitted fmt dp arcs) = concat (map endpoints arcs)"
      using d by (rule emitted_decodable)
    with e have "firstOccurrences (emitted fmt dp arcs) = emitted fmt dp arcs"
      by (simp add: firstOccurrences_distinct)
    then have "length (buildData fmt dp arcs) = length (map coord (emitted fmt dp arcs))"
      by (simp add: eq)
    also have "\<dots> = 2 * length arcs"
      unfolding m by (induction arcs) (simp_all add: endpoints_def)
    finally show ?thesis .
  qed
  show ?thesis
    unfolding eq
    using len
    by (auto simp: distinct_firstOccurrences coords_firstOccurrences find_firstOccurrences
        subseq_firstOccurrences eq simp del: firstOccurrences.simps)
qed

theorem buildData_first_occurrence_wins_witness:
  "list_all numericArc [mockData ! 0, mockData ! 3] \<and>
   map coord (buildData noFraction (defaultProps mockGlobeConfig) [mockData ! 0, mockData ! 3])
     = [(Num (407128 / 10000), Num (- 740060 / 10000)),
        (Num (340522 / 10000), Num (- 1182437 / 10000)),
        (Num (515074 / 10000), Num (- 1278 / 10000))] \<and>
   map pt_order (buildData noFraction (defaultProps mockGlobeConfig) [mockData ! 0, mockData ! 3])
     = [Num 1, Num 1, Num 4] \<and>
   list_all numericArc (take 2 mockData) \<and> list_all decodable (take 2 mockData) \<and>
   distinct (concat (map endpoints (take 2 mockData))) \<and>
   length (buildData noFraction (defaultProps mockGlobeConfig) (take 2 mockData)) = 2 * 2"
proof -
  have n1: "list_all numericArc [mockData ! 0, mockData ! 3]"
    by (simp add: mock_0 mock_3 mkArc_def numericArc_def)
  have n2: "list_all numericArc (take 2 mockData)"
    by (simp add: mock_take2 mkArc_def numericArc_def)
  have d2: "list_all decodable (take 2 mockData)"
    by (simp add: mock_take2 mkArc_def decodable_def hexToRgb_ff0000 hexToRgb_00ff00)
  have e2: "distinct (concat (map endpoints (take 2 mockData)))"
    by (simp add: mock_take2 mkArc_def endpoints_def)
  have l2: "length (take 2 mockData) = 2"
    by (simp add: mock_take2)
  have em: "firstOccurrences (emitted noFraction (defaultProps mockGlobeConfig) [mockData ! 0, mockData ! 3])
      = [startPoint noFraction (defaultProps mockGlobeConfig) \<lparr>r = 255, g = 0, b = 0\<rparr> (mockData ! 0),
         endPoint noFraction (defaultProps mockGlobeConfig) \<lparr>r = 255, g = 0, b = 0\<rparr> (mockData ! 0),
         endPoint noFraction (defaultProps mockGlobeConfig) \<lparr>r = 255, g = 255, b = 0\<rparr> (mockData ! 3)]"
    by (simp add: emitted_def arcPoints_def mock_0 mock_3 mkArc_def hexToRgb_ff0000 hexToRgb_ffff00
        startPoint_def endPoint_def coord_def)
  note t1 = buildData_first_occurrence_wins[OF n1, of noFraction "defaultProps mockGlobeConfig"]
  note t2 = buildData_first_occurrence_wins[OF n2, of noFraction "defaultProps mockGlobeConfig"]
  from t1 have b1: "buildData noFraction (defaultProps mockGlobeConfig) [mockData ! 0, mockData ! 3]
      = [startPoint noFraction (defaultProps mockGlobeConfig) \<lparr>r = 255, g = 0, b = 0\<rparr> (mockData ! 0),
         endPoint noFraction (defaultProps mockGlobeConfig) \<lparr>r = 255, g = 0, b = 0\<rparr> (mockData ! 0),
         endPoint noFraction (defaultProps mockGlobeConfig) \<lparr>r = 255, g = 255, b = 0\<rparr> (mockData ! 3)]"
    unfolding em by (rule conjunct1)
  from t2 d2 e2 have b2: "length (buildData noFraction (defaultProps mockGlobeConfig) (take 2 mockData))
      = 2 * length (take 2 mockData)"
    by blast
  have c1: "map coord (buildData noFraction (defaultProps mockGlobeConfig) [mockData ! 0, mockData ! 3])
     = [(Num (407128 / 10000), Num (- 740060 / 10000)),
        (Num (340522 / 10000), Num (- 1182437 / 10000)),
        (Num (515074 / 10000), Num (- 1278 / 10000))]"
    unfolding b1 by (simp add: startPoint_def endPoint_def coord_def mock_0 mock_3 mkArc_def)
  have o1: "map pt_order (buildData noFraction (defaultProps mockGlobeConfig) [mockData ! 0, mockData ! 3])
     = [Num 1, Num 1, Num 4]"
    unfolding b1 by (simp add: startPoint_def endPoint_def mock_0 mock_3 mkArc_def)
  from n1 c1 o1 n2 d2 e2 b2 l2 show ?thesis by simp
qed

text \<open>
  The claim as stated gives \<open>2n\<close> entries to any \<open>n\<close> arcs with pairwise distinct
  endpoints. One arc with the colour \<open>blue\<close> and two distinct endpoints yields no entry.
\<close>

theorem buildData_2n_counterexample:
  "list_all numericArc [blueArc] \<and> distinct (concat (map endpoints [blueArc])) \<and>
   length (buildData noFraction (defaultProps emptyConfig) [blueArc]) \<noteq> 2 * length [blueArc]"
  by (simp add: buildData_def filteredPoints_def filterIndexed_def blueArc_def mkArc_def
      numericArc_def endpoints_def hexToRgb_blue)




lemma numberToString_one: "numberToString fmt (minusNum (Num 1) (Num 0)) = ''1''"
  by (simp add: showNat.simps char_of_eq_iff)

lemma numberToString_zero: "numberToString fmt (minusNum (Num 1) (Num 1)) = ''0''"
  by (simp add: showNat.simps char_of_eq_iff)

lemma colorClosure_rgbaText:
  "colorClosure fmt c t = rgbaText (r c) (g c) (b c) (numberToString fmt (minusNum (Num 1) t))"
  by (simp add: colorClosure_def rgbaText_def)

text \<open>
  Claim C8. Every point of the dataset has the start or the end of an arc whose colour
  decodes as its coordinates, and its colour function maps \<open>t\<close> to the text
  \<open>rgba(r, g, b, a)\<close> where \<open>r\<close>, \<open>g\<close>, \<open>b\<close> are the bytes decoded from that arc's colour
  and \<open>a\<close> is the text of \<open>1 - t\<close>: the text \<open>1\<close> at \<open>t = 0\<close> and the text \<open>0\<close> at
  \<open>t = 1\<close>.
\<close>

theorem point_color_fades:
  "\<forall>p\<in>set (buildData fmt dp arcs). \<exists>a\<in>set arcs. \<exists>c.
      hexToRgb (color a) = Some c \<and>
      (coord p = (startLat a, startLng a) \<or> coord p = (endLat a, endLng a)) \<and>
      (\<forall>t. pt_color p t
           = rgbaText (r c) (g c) (b c) (numberToString fmt (minusNum (Num 1) t))) \<and>
      pt_color p (Num 0) = rgbaText (r c) (g c) (b c) ''1'' \<and>
      pt_color p (Num 1) = rgbaText (r c) (g c) (b c) ''0''"
proof
  fix p assume "p \<in> set (buildData fmt dp arcs)"
  from buildData_origin[OF this] obtain a c where a: "a \<in> set arcs"
    and c: "hexToRgb (color a) = Some c"
    and p: "p = startPoint fmt dp c a \<or> p = endPoint fmt dp c a" by blast
  from p have col: "pt_color p = colorClosure fmt c"
    by (auto simp: startPoint_def endPoint_def)
  from p have co: "coord p = (startLat a, startLng a) \<or> coord p = (endLat a, endLng a)"
    by (auto simp: startPoint_def endPoint_def coord_def)
  have "(\<forall>t. pt_color p t
           = rgbaText (r c) (g c) (b c) (numberToString fmt (minusNum (Num 1) t))) \<and>
      pt_color p (Num 0) = rgbaText (r c) (g c) (b c) ''1'' \<and>
      pt_color p (Num 1) = rgbaText (r c) (g c) (b c) ''0''"
    unfolding col colorClosure_rgbaText
    by (simp only: numberToString_one numberToString_zero simp_thms)
  with a c co show "\<exists>a\<in>set arcs. \<exists>c.
      hexToRgb (color a) = Some c \<and>
      (coord p = (startLat a, startLng a) \<or> coord p = (endLat a, endLng a)) \<and>
      (\<forall>t. pt_color p t
           = rgbaText (r c) (g c) (b c) (numberToString fmt (minusNum (Num 1) t))) \<and>
      pt_color p (Num 0) = rgbaText (r c) (g c) (b c) ''1'' \<and>
      pt_color p (Num 1) = rgbaText (r c) (g c) (b c) ''0''"
    by blast
qed

theorem point_color_fades_witness:
  "pt_color (hd (buildData noFraction (defaultProps emptyConfig) [redArc])) (Num 0) = ''rgba(255, 0, 0, 1)'' \<and>
   pt_color (hd (buildData noFraction (defaultProps emptyConfig) [redArc])) (Num 1) = ''rgba(255, 0, 0, 0)''"
proof -
  let ?ps = "buildData noFraction (defaultProps emptyConfig) [redArc]"
  have "?ps \<noteq> []"
    by (simp add: buildData_firstOccurrences emitted_def arcPoints_def redArc_def mkArc_def
        hexToRgb_f00 numericPoint_def startPoint_def)
  then have "hd ?ps \<in> set ?ps" by simp
  with point_color_fades[of noFraction "defaultProps emptyConfig" "[redArc]"]
  obtain c where c: "hexToRgb (color redArc) = Some c"
    and z: "pt_color (hd ?ps) (Num 0) = rgbaText (r c) (g c) (b c) ''1''"
    and o: "pt_color (hd ?ps) (Num 1) = rgbaText (r c) (g c) (b c) ''0''"
    by auto
  from c have "c = \<lparr>r = 255, g = 0, b = 0\<rparr>"
    by (simp add: redArc_def mkArc_def hexToRgb_f00)
  with z o show ?thesis
    by (simp add: rgbaText_def showNat_255 showNat_0)
qed


section \<open>The random index selection\<close>

lemma drawAt_range:
  assumes "0 \<le> rnd k" "rnd k < 1" "lo < hi"
  shows "lo \<le> drawAt rnd lo hi k \<and> drawAt rnd lo hi k < hi"
proof -
  have pos: "(0::rat) < of_int (hi - lo)" using assms(3) by simp
  have "0 \<le> rnd k * of_int (hi - lo)" using assms(1) pos by simp
  then have a: "0 \<le> \<lfloor>rnd k * of_int (hi - lo)\<rfloor>" by simp
  have "rnd k * of_int (hi - lo) < 1 * of_int (hi - lo)"
    using assms(2) pos by (rule mult_strict_right_mono)
  then have "rnd k * of_int (hi - lo) < of_int (hi - lo)" by simp
  then have b: "\<lfloor>rnd k * of_int (hi - lo)\<rfloor> < hi - lo" by (simp add: floor_less_iff)
  from a b show ?thesis by (simp add: drawAt_def)
qed

lemma genRandomLoop_done:
  "\<not> int (length arr) < count \<Longrightarrow> genRandomLoop rnd lo hi count arr k = Some (arr, k)"
  by (subst genRandomLoop.simps) simp

lemma genRandomLoop_step:
  "int (length arr) < count \<Longrightarrow>
   genRandomLoop rnd lo hi count arr k =
     (if drawAt rnd lo hi k \<notin> set arr
      then genRandomLoop rnd lo hi count (arr @ [drawAt rnd lo hi k]) (Suc k)
      else genRandomLoop rnd lo hi count arr (Suc k))"
  by (subst genRandomLoop.simps) (simp add: Let_def)

lemma genRandomLoop_returns:
  "count - int (length arr) \<le> int (card (drawAt rnd lo hi ` {k..<k + m} - set arr)) \<Longrightarrow>
   \<exists>arr' k'. genRandomLoop rnd lo hi count arr k = Some (arr', k') \<and> k' \<le> k + m"
proof (induction m arbitrary: arr k)
  case 0
  then have "\<not> int (length arr) < count" by simp
  then show ?case by (simp add: genRandomLoop_done)
next
  case (Suc m)
  show ?case
  proof (cases "int (length arr) < count")
    case False
    then show ?thesis by (simp add: genRandomLoop_done)
  next
    case True
    let ?rv = "drawAt rnd lo hi k"
    let ?D = "drawAt rnd lo hi ` {Suc k..<Suc k + m}"
    have split: "drawAt rnd lo hi ` {k..<k + Suc m} = insert ?rv ?D"
    proof -
      have "{k..<k + Suc m} = insert k {Suc k..<Suc k + m}" by auto
      then show ?thesis by simp
    qed
    show ?thesis
    proof (cases "?rv \<in> set arr")
      case True
      have "insert ?rv ?D - set arr = ?D - set arr" using True by auto
      with Suc.prems split
      have "count - int (length arr) \<le> int (card (?D - set arr))" by simp
      from Suc.IH[OF this] obtain arr' k' where
        "genRandomLoop rnd lo hi count arr (Suc k) = Some (arr', k')" "k' \<le> Suc k + m" by blast
      with True \<open>int (length arr) < count\<close> show ?thesis
        by (simp add: genRandomLoop_step)
    next
      case False
      have "insert ?rv ?D - set arr = insert ?rv (?D - set (arr @ [?rv]))" using False by auto
      then have "card (insert ?rv ?D - set arr) \<le> Suc (card (?D - set (arr @ [?rv])))"
        by (simp add: card_insert_if)
      with Suc.prems split
      have "count - int (length (arr @ [?rv])) \<le> int (card (?D - set (arr @ [?rv])))"
        by simp
      from Suc.IH[OF this] obtain arr' k' where
        "genRandomLoop rnd lo hi count (arr @ [?rv]) (Suc k) = Some (arr', k')" "k' \<le> Suc k + m"
        by blast
      with False \<open>int (length arr) < count\<close> show ?thesis
        by (simp add: genRandomLoop_step)
    qed
  qed
qed

lemma genRandomLoop_result:
  assumes ret: "genRandomLoop rnd lo hi count arr k = Some y"
  shows "(distinct arr \<longrightarrow> distinct (fst y)) \<and>
         set (fst y) \<subseteq> set arr \<union> drawAt rnd lo hi ` {k..<snd y} \<and>
         (int (length arr) \<le> count \<longrightarrow> int (length (fst y)) = count) \<and>
         k \<le> snd y"
proof (rule genRandomLoop.raw_induct[where P = "\<lambda>rnd lo hi count arr k y.
         (distinct arr \<longrightarrow> distinct (fst y)) \<and>
         set (fst y) \<subseteq> set arr \<union> drawAt rnd lo hi ` {k..<snd y} \<and>
         (int (length arr) \<le> count \<longrightarrow> int (length (fst y)) = count) \<and>
         k \<le> snd y", OF _ ret], goal_cases)
  case (1 loop rnd lo hi count arr k y)
  show ?case
  proof (cases "int (length arr) < count")
    case False
    with 1(2) have "y = (arr, k)" by simp
    with False show ?thesis by simp
  next
    case True
    let ?rv = "drawAt rnd lo hi k"
    show ?thesis
    proof (cases "?rv \<in> set arr")
      case True
      with \<open>int (length arr) < count\<close> 1(2)
      have "loop rnd lo hi count arr (Suc k) = Some y" by (simp add: Let_def)
      from 1(1)[OF this] \<open>int (length arr) < count\<close> show ?thesis
        by (auto simp: atLeastLessThan_def)
    next
      case False
      with \<open>int (length arr) < count\<close> 1(2)
      have "loop rnd lo hi count (arr @ [?rv]) (Suc k) = Some y" by (simp add: Let_def)
      from 1(1)[OF this] \<open>int (length arr) < count\<close> False
      have a: "distinct arr \<longrightarrow> distinct (fst y)"
        and b: "set (fst y) \<subseteq> set (arr @ [?rv]) \<union> drawAt rnd lo hi ` {Suc k..<snd y}"
        and c: "int (length (fst y)) = count" and d: "Suc k \<le> snd y"
        by auto
      from d have "{k..<snd y} = insert k {Suc k..<snd y}" by auto
      then have "drawAt rnd lo hi ` {k..<snd y} = insert ?rv (drawAt rnd lo hi ` {Suc k..<snd y})"
        by simp
      with b have "set (fst y) \<subseteq> set arr \<union> drawAt rnd lo hi ` {k..<snd y}" by auto
      with a c d show ?thesis by simp
    qed
  qed
qed



lemma distinctDraws_card:
  "distinctDraws rnd lo hi k m = card (drawAt rnd lo hi ` {k..<k + m})"
  by (simp add: distinctDraws_def length_remdups_card_conv)

lemma genRandomNumbers_returns:
  assumes "count \<le> int (distinctDraws rnd lo hi k m)"
  shows "\<exists>nums k'. genRandomNumbers rnd k lo hi count = Some (nums, k') \<and> k' \<le> k + m"
  using genRandomLoop_returns[of count "[]" rnd lo hi k m] assms
  by (simp add: genRandomNumbers_def distinctDraws_card)

lemma genRandomNumbers_result:
  assumes "genRandomNumbers rnd k lo hi count = Some (nums, k')" "0 \<le> count"
  shows "distinct nums \<and> int (length nums) = count \<and>
         set nums \<subseteq> drawAt rnd lo hi ` {k..<k'} \<and> k \<le> k'"
  using genRandomLoop_result[of rnd lo hi count "[]" k "(nums, k')"] assms
  by (simp add: genRandomNumbers_def)

lemma genRandomNumbers_needs:
  assumes "genRandomNumbers rnd k lo hi count = Some (nums, k')" "0 \<le> count"
  shows "count \<le> int (distinctDraws rnd lo hi k (k' - k))"
proof -
  from genRandomNumbers_result[OF assms]
  have d: "distinct nums" and l: "int (length nums) = count"
    and s: "set nums \<subseteq> drawAt rnd lo hi ` {k..<k'}" and k: "k \<le> k'" by auto
  from d have "length nums = card (set nums)" by (simp add: distinct_card)
  also from s have "\<dots> \<le> card (drawAt rnd lo hi ` {k..<k'})"
    by (intro card_mono) auto
  finally show ?thesis using l k by (simp add: distinctDraws_card)
qed

lemma draws_in_range:
  assumes "unitSource rnd" "lo < hi"
  shows "drawAt rnd lo hi ` S \<subseteq> {lo..<hi}"
proof
  fix x assume "x \<in> drawAt rnd lo hi ` S"
  then obtain i where x: "x = drawAt rnd lo hi i" by auto
  from assms(1) have "0 \<le> rnd i" "rnd i < 1" by (auto simp: unitSource_def)
  with assms(2) drawAt_range[of rnd i lo hi] show "x \<in> {lo..<hi}" by (simp add: x)
qed

lemma ringCount_le: "ringCount n \<le> n"
  by (simp add: ringCount_def)

lemma ringCount_floor: "ringCount n = nat \<lfloor>(of_nat (n * 4) :: rat) / 5\<rfloor>"
proof -
  have "\<lfloor>(of_nat (n * 4) :: rat) / of_nat 5\<rfloor> = int ((n * 4) div 5)"
    by (simp only: floor_divide_of_nat_eq)
  then show ?thesis by (simp add: ringCount_def)
qed

lemma ring_selection:
  assumes u: "unitSource rnd"
    and ret: "genRandomNumbers rnd k 0 (int n) (int (ringCount n)) = Some (nums, k')"
  shows "length nums = ringCount n \<and> distinct nums \<and> (\<forall>x\<in>set nums. 0 \<le> x \<and> x < int n)"
proof -
  from genRandomNumbers_result[OF ret]
  have d: "distinct nums" and l: "length nums = ringCount n"
    and s: "set nums \<subseteq> drawAt rnd 0 (int n) ` {k..<k'}" by auto
  have "\<forall>x\<in>set nums. 0 \<le> x \<and> x < int n"
  proof (cases "n = 0")
    case True
    with l show ?thesis by (simp add: ringCount_def)
  next
    case False
    then have "(0::int) < int n" by simp
    from draws_in_range[OF u this] s show ?thesis by fastforce
  qed
  with d l show ?thesis by simp
qed

lemma unit_tenths: "unitSource tenthsSource"
  by (simp add: unitSource_def tenthsSource_def)

lemma unit_thirds: "unitSource thirdsSource"
  by (simp add: unitSource_def thirdsSource_def)

lemma upt_8: "[0..<8] = [0, 1, 2, 3, 4, 5, 6, 7 :: nat]"
  by (simp add: upt_rec)

lemma draws_tenths: "distinctDraws tenthsSource 0 10 0 8 = 8"
  by (simp add: distinctDraws_def upt_8 drawAt_def tenthsSource_def)

lemma upt_2: "[0..<2] = [0, 1 :: nat]"
  by (simp add: upt_rec)

lemma draws_thirds: "distinctDraws thirdsSource 0 3 0 2 = 2"
  by (simp add: distinctDraws_def upt_2 drawAt_def thirdsSource_def)


lemma zip_upt_map: "zip xs [0..<length xs] = map (\<lambda>i. (xs ! i, i)) [0..<length xs]"
  by (rule nth_equalityI) simp_all

lemma filterIndexed_nth:
  "filterIndexed P xs = map (\<lambda>i. xs ! i) (filter (\<lambda>i. P (xs ! i) i) [0..<length xs])"
  by (simp add: filterIndexed_def zip_upt_map filter_map o_def)

lemma filterIndexed_atIndices: "filterIndexed (\<lambda>d i. int i \<in> set nums) xs = atIndices xs nums"
  by (simp add: filterIndexed_nth atIndices_def)

lemma atIndices_in_range:
  "atIndices xs nums = atIndices xs (filter (\<lambda>x. x < int (length xs)) nums)"
proof -
  have "filter (\<lambda>i. int i \<in> set nums) [0..<length xs]
      = filter (\<lambda>i. int i \<in> set (filter (\<lambda>x. x < int (length xs)) nums)) [0..<length xs]"
    by (rule filter_cong) auto
  then show ?thesis by (simp add: atIndices_def)
qed


section \<open>The indices a ring tick selects\<close>

lemma ringTick_mounted:
  assumes "globeRef st = Some gl" and "globeData st = Some gd" and "data \<noteq> []"
  shows "ringTick rnd k data st =
     (case genRandomNumbers rnd k 0 (int (length data)) (int (ringCount (length data))) of
        None \<Rightarrow> None
      | Some (nums, k') \<Rightarrow>
          Some (st\<lparr>globeRef := Some (gl\<lparr>ringsData := atIndices gd nums\<rparr>)\<rparr>, k'))"
  using assms by (simp add: ringTick_def filterIndexed_atIndices split: option.splits)

lemma ringTick_guard:
  "globeRef st = None \<or> globeData st = None \<or> data = [] \<Longrightarrow> ringTick rnd k data st = Some (st, k)"
  by (auto simp: ringTick_def split: option.splits)

text \<open>
  Claim C2. A ring tick past its guard, with \<open>n\<close> arcs in \<open>data\<close> and a random source that
  keeps to its range, asks \<open>genRandomNumbers\<close> for \<open>count = floor((n * 4) / 5)\<close> indices
  between 0 and \<open>n\<close>. Whenever the tick returns, the indices it selected are exactly
  \<open>count\<close> many, pairwise distinct, each at least 0 and less than \<open>n\<close>, and the rings it
  sets are the points at those indices. The tick returns, within \<open>m\<close> draws, as soon as
  the next \<open>m\<close> draws hold \<open>count\<close> distinct indices. For ten arcs the count is 8.
\<close>

theorem ring_tick_selects_distinct_indices:
  assumes "unitSource rnd" and "globeRef st = Some gl" and "globeData st = Some gd"
    and "data \<noteq> []"
  shows "ringCount (length data) = nat \<lfloor>(of_nat (length data * 4) :: rat) / 5\<rfloor> \<and>
     (\<forall>st' k'. ringTick rnd k data st = Some (st', k') \<longrightarrow>
        (\<exists>nums.
           genRandomNumbers rnd k 0 (int (length data)) (int (ringCount (length data)))
             = Some (nums, k') \<and>
           st' = st\<lparr>globeRef := Some (gl\<lparr>ringsData := atIndices gd nums\<rparr>)\<rparr> \<and>
           length nums = ringCount (length data) \<and> distinct nums \<and>
           (\<forall>x\<in>set nums. 0 \<le> x \<and> x < int (length data)))) \<and>
     (ringCount (length data) \<le> distinctDraws rnd 0 (int (length data)) k m \<longrightarrow>
        (\<exists>st' k' nums. ringTick rnd k data st = Some (st', k') \<and> k' \<le> k + m \<and>
           genRandomNumbers rnd k 0 (int (length data)) (int (ringCount (length data)))
             = Some (nums, k') \<and>
           st' = st\<lparr>globeRef := Some (gl\<lparr>ringsData := atIndices gd nums\<rparr>)\<rparr> \<and>
           length nums = ringCount (length data) \<and> distinct nums \<and>
           (\<forall>x\<in>set nums. 0 \<le> x \<and> x < int (length data)))) \<and>
     (length data = 10 \<longrightarrow> ringCount (length data) = 8)"
proof (intro conjI allI impI)
  show "ringCount (length data) = nat \<lfloor>(of_nat (length data * 4) :: rat) / 5\<rfloor>"
    by (rule ringCount_floor)
next
  fix st' k'
  assume t: "ringTick rnd k data st = Some (st', k')"
  let ?g = "genRandomNumbers rnd k 0 (int (length data)) (int (ringCount (length data)))"
  from t obtain nums where g: "?g = Some (nums, k')"
    and s: "st' = st\<lparr>globeRef := Some (gl\<lparr>ringsData := atIndices gd nums\<rparr>)\<rparr>"
    unfolding ringTick_mounted[OF assms(2,3,4)]
    by (cases ?g) auto
  from ring_selection[OF assms(1) g] g s
  show "\<exists>nums. ?g = Some (nums, k') \<and>
           st' = st\<lparr>globeRef := Some (gl\<lparr>ringsData := atIndices gd nums\<rparr>)\<rparr> \<and>
           length nums = ringCount (length data) \<and> distinct nums \<and>
           (\<forall>x\<in>set nums. 0 \<le> x \<and> x < int (length data))"
    by blast
next
  let ?g = "genRandomNumbers rnd k 0 (int (length data)) (int (ringCount (length data)))"
  assume "ringCount (length data) \<le> distinctDraws rnd 0 (int (length data)) k m"
  then have "int (ringCount (length data)) \<le> int (distinctDraws rnd 0 (int (length data)) k m)"
    by simp
  from genRandomNumbers_returns[OF this] obtain nums k' where
    g: "?g = Some (nums, k')" and k': "k' \<le> k + m" by blast
  have t: "ringTick rnd k data st
      = Some (st\<lparr>globeRef := Some (gl\<lparr>ringsData := atIndices gd nums\<rparr>)\<rparr>, k')"
    unfolding ringTick_mounted[OF assms(2,3,4)] by (simp add: g)
  from ring_selection[OF assms(1) g] g k' t
  show "\<exists>st' k' nums. ringTick rnd k data st = Some (st', k') \<and> k' \<le> k + m \<and>
           ?g = Some (nums, k') \<and>
           st' = st\<lparr>globeRef := Some (gl\<lparr>ringsData := atIndices gd nums\<rparr>)\<rparr> \<and>
           length nums = ringCount (length data) \<and> distinct nums \<and>
           (\<forall>x\<in>set nums. 0 \<le> x \<and> x < int (length data))"
    by blast
next
  assume "length data = 10"
  then show "ringCount (length data) = 8" by (simp add: ringCount_def)
qed

theorem ring_tick_selects_distinct_indices_witness:
  "unitSource tenthsSource \<and> globeRef (mounted []) = Some freshGlobe \<and>
   globeData (mounted []) = Some [] \<and> replicate 10 redArc \<noteq> [] \<and>
   length (replicate 10 redArc) = 10 \<and>
   ringCount (length (replicate 10 redArc))
     \<le> distinctDraws tenthsSource 0 (int (length (replicate 10 redArc))) 0 8 \<and>
   (\<exists>st' k' nums. ringTick tenthsSource 0 (replicate 10 redArc) (mounted []) = Some (st', k') \<and>
      k' \<le> 0 + 8 \<and>
      st' = (mounted [])\<lparr>globeRef := Some (freshGlobe\<lparr>ringsData := atIndices [] nums\<rparr>)\<rparr> \<and>
      length nums = 8 \<and> distinct nums \<and> list_all (\<lambda>x. 0 \<le> x \<and> x < 10) nums)"
proof -
  let ?data = "replicate 10 redArc"
  have g: "globeRef (mounted []) = Some freshGlobe" by (simp add: mounted_def)
  have d: "globeData (mounted []) = Some []" by (simp add: mounted_def)
  have n: "?data \<noteq> []" by simp
  have l: "length ?data = 10" by simp
  have e: "ringCount (length ?data) \<le> distinctDraws tenthsSource 0 (int (length ?data)) 0 8"
    by (simp add: draws_tenths ringCount_def)
  note t = ring_tick_selects_distinct_indices[OF unit_tenths g d n, of 0 8]
  from t l have c: "ringCount (length ?data) = 8" by blast
  from t e obtain st' k' nums where
    "ringTick tenthsSource 0 ?data (mounted []) = Some (st', k')" "k' \<le> 0 + 8"
    "st' = (mounted [])\<lparr>globeRef := Some (freshGlobe\<lparr>ringsData := atIndices [] nums\<rparr>)\<rparr>"
    "length nums = ringCount (length ?data)" "distinct nums"
    "\<forall>x\<in>set nums. 0 \<le> x \<and> x < int (length ?data)"
    by blast
  then have "\<exists>st' k' nums. ringTick tenthsSource 0 ?data (mounted []) = Some (st', k') \<and>
      k' \<le> 0 + 8 \<and>
      st' = (mounted [])\<lparr>globeRef := Some (freshGlobe\<lparr>ringsData := atIndices [] nums\<rparr>)\<rparr> \<and>
      length nums = 8 \<and> distinct nums \<and> list_all (\<lambda>x. 0 \<le> x \<and> x < 10) nums"
    unfolding c by (auto simp: list_all_iff)
  with unit_tenths g d n l e show ?thesis by blast
qed

lemma fair_covers:
  assumes "fairSource rnd n"
  shows "finite S \<Longrightarrow> S \<subseteq> {0..<int n} \<Longrightarrow> \<exists>m. S \<subseteq> drawAt rnd 0 (int n) ` {k..<k + m}"
proof (induction S rule: finite_induct)
  case empty
  show ?case by simp
next
  case (insert i S)
  then obtain m where m: "S \<subseteq> drawAt rnd 0 (int n) ` {k..<k + m}" by auto
  from insert.prems have "i \<in> {0..<int n}" by simp
  with assms have "\<exists>j\<ge>k. drawAt rnd 0 (int n) j = i"
    unfolding fairSource_def by blast
  then obtain j where j: "k \<le> j" "drawAt rnd 0 (int n) j = i" by blast
  let ?m = "max m (Suc j - k)"
  have "{k..<k + m} \<subseteq> {k..<k + ?m}" by auto
  with m have "S \<subseteq> drawAt rnd 0 (int n) ` {k..<k + ?m}" by blast
  moreover from j have "j \<in> {k..<k + ?m}" by auto
  with j(2) have "i \<in> drawAt rnd 0 (int n) ` {k..<k + ?m}" by blast
  ultimately show ?case by blast
qed

lemma fair_enough:
  assumes "fairSource rnd n"
  shows "\<exists>m. n \<le> distinctDraws rnd 0 (int n) k m"
proof -
  from fair_covers[OF assms, of "{0..<int n}" k]
  obtain m where c: "{0..<int n} \<subseteq> drawAt rnd 0 (int n) ` {k..<k + m}" by auto
  have "n = card {0..<int n}" by simp
  also from c have "\<dots> \<le> card (drawAt rnd 0 (int n) ` {k..<k + m})"
    by (intro card_mono) auto
  finally show ?thesis by (auto simp: distinctDraws_card)
qed

text \<open>
  Claim C6. For every arc count \<open>n\<close> the requested count is at most \<open>n\<close>. The draw made by
  a ring tick returns as soon as the draws hold \<open>count\<close> distinct indices; and because
  there are \<open>n\<close> indices and the count is at most \<open>n\<close>, it returns on every random
  source that is fair for \<open>n\<close> indices, and so does every ring tick.
\<close>

theorem ring_tick_draw_terminates:
  "ringCount n \<le> n \<and>
   (ringCount n \<le> distinctDraws rnd 0 (int n) k m \<longrightarrow>
      (\<exists>nums k'. genRandomNumbers rnd k 0 (int n) (int (ringCount n)) = Some (nums, k') \<and>
         k' \<le> k + m)) \<and>
   (fairSource rnd n \<longrightarrow>
      (\<exists>nums k'. genRandomNumbers rnd k 0 (int n) (int (ringCount n)) = Some (nums, k'))) \<and>
   (fairSource rnd (length data) \<longrightarrow> (\<exists>st' k'. ringTick rnd k data st = Some (st', k')))"
proof (intro conjI impI)
  show "ringCount n \<le> n" by (rule ringCount_le)
next
  assume "ringCount n \<le> distinctDraws rnd 0 (int n) k m"
  then have "int (ringCount n) \<le> int (distinctDraws rnd 0 (int n) k m)" by simp
  then show "\<exists>nums k'. genRandomNumbers rnd k 0 (int n) (int (ringCount n)) = Some (nums, k') \<and>
         k' \<le> k + m"
    by (rule genRandomNumbers_returns)
next
  assume "fairSource rnd n"
  from fair_enough[OF this, of k] obtain m where "n \<le> distinctDraws rnd 0 (int n) k m" ..
  with ringCount_le[of n] have "int (ringCount n) \<le> int (distinctDraws rnd 0 (int n) k m)"
    by simp
  from genRandomNumbers_returns[OF this]
  show "\<exists>nums k'. genRandomNumbers rnd k 0 (int n) (int (ringCount n)) = Some (nums, k')"
    by blast
next
  assume f: "fairSource rnd (length data)"
  show "\<exists>st' k'. ringTick rnd k data st = Some (st', k')"
  proof (cases "globeRef st = None \<or> globeData st = None \<or> data = []")
    case True
    then show ?thesis by (simp add: ringTick_guard)
  next
    case False
    then obtain gl gd where s: "globeRef st = Some gl" "globeData st = Some gd" "data \<noteq> []"
      by auto
    from fair_enough[OF f, of k] obtain m
      where "length data \<le> distinctDraws rnd 0 (int (length data)) k m" ..
    with ringCount_le[of "length data"]
    have "int (ringCount (length data)) \<le> int (distinctDraws rnd 0 (int (length data)) k m)"
      by simp
    from genRandomNumbers_returns[OF this] obtain nums k' where
      "genRandomNumbers rnd k 0 (int (length data)) (int (ringCount (length data)))
         = Some (nums, k')" by blast
    then show ?thesis unfolding ringTick_mounted[OF s] by simp
  qed
qed

lemma draw_thirds: "drawAt thirdsSource 0 3 j = int (j mod 3)"
proof -
  have "rat_of_nat (j mod 3) / 3 * 3 = rat_of_nat (j mod 3)" by simp
  then show ?thesis by (simp add: drawAt_def thirdsSource_def)
qed

lemma fair_thirds: "fairSource thirdsSource 3"
  unfolding fairSource_def
proof (intro allI ballI)
  fix k :: nat and i :: int
  assume "i \<in> {0..<int 3}"
  then have i: "0 \<le> i" "i < 3" by auto
  have "k \<le> 3 * k + nat i" by simp
  moreover have "drawAt thirdsSource 0 (int 3) (3 * k + nat i) = i"
    using i by (simp add: draw_thirds)
  ultimately show "\<exists>j\<ge>k. drawAt thirdsSource 0 (int 3) j = i" by blast
qed

theorem ring_tick_draw_terminates_witness:
  "fairSource thirdsSource 3 \<and> fairSource thirdsSource (length [redArc, redArc, redArc]) \<and>
   ringCount 3 \<le> distinctDraws thirdsSource 0 (int 3) 0 2 \<and>
   (\<exists>nums k'. genRandomNumbers thirdsSource 0 0 (int 3) (int (ringCount 3)) = Some (nums, k') \<and>
      k' \<le> 0 + 2) \<and>
   (\<exists>st' k'. ringTick thirdsSource 0 [redArc, redArc, redArc] (mounted []) = Some (st', k'))"
proof -
  have "length [redArc, redArc, redArc] = 3" by simp
  with fair_thirds have f: "fairSource thirdsSource (length [redArc, redArc, redArc])"
    by (simp only:)
  have e: "ringCount 3 \<le> distinctDraws thirdsSource 0 (int 3) 0 2"
    by (simp add: draws_thirds ringCount_def)
  note t = ring_tick_draw_terminates[of 3 thirdsSource 0 2 "[redArc, redArc, redArc]" "mounted []"]
  from t e have 1: "\<exists>nums k'. genRandomNumbers thirdsSource 0 0 (int 3) (int (ringCount 3))
      = Some (nums, k') \<and> k' \<le> 0 + 2" by blast
  from t f have 2: "\<exists>st' k'. ringTick thirdsSource 0 [redArc, redArc, redArc] (mounted [])
      = Some (st', k')" by blast
  from fair_thirds f e 1 2 show ?thesis by blast
qed


section \<open>The ring tick\<close>

text \<open>
  Claim C4, as amended. On a ring tick past its guard, with a random source that keeps
  to its range and whose next \<open>m\<close> draws hold enough distinct indices, the tick returns:
  each drawn index is at least 0 and less than the number of arcs, and the ring
  dataset of the globe is overwritten with exactly the render points whose position in
  the point list is among the drawn indices. A drawn index at or beyond the length of
  the point list selects nothing.
\<close>

theorem ringTick_replaces_rings:
  assumes "globeRef st = Some gl" and "globeData st = Some gd" and "data \<noteq> []"
    and "unitSource rnd"
    and "ringCount (length data) \<le> distinctDraws rnd 0 (int (length data)) k m"
  shows "\<exists>nums k'.
     genRandomNumbers rnd k 0 (int (length data)) (int (ringCount (length data))) = Some (nums, k') \<and>
     (\<forall>x\<in>set nums. 0 \<le> x \<and> x < int (length data)) \<and>
     ringTick rnd k data st
       = Some (st\<lparr>globeRef := Some (gl\<lparr>ringsData := atIndices gd nums\<rparr>)\<rparr>, k') \<and>
     atIndices gd nums = atIndices gd (filter (\<lambda>x. x < int (length gd)) nums)"
proof -
  from assms(5) have "int (ringCount (length data)) \<le> int (distinctDraws rnd 0 (int (length data)) k m)"
    by simp
  from genRandomNumbers_returns[OF this] obtain nums k' where
    ret: "genRandomNumbers rnd k 0 (int (length data)) (int (ringCount (length data))) = Some (nums, k')"
    by blast
  from ring_selection[OF assms(4) ret]
  have rng: "\<forall>x\<in>set nums. 0 \<le> x \<and> x < int (length data)" by simp
  have tick: "ringTick rnd k data st
       = Some (st\<lparr>globeRef := Some (gl\<lparr>ringsData := atIndices gd nums\<rparr>)\<rparr>, k')"
    using assms(1,2,3) ret by (simp add: ringTick_def filterIndexed_atIndices)
  from ret rng tick atIndices_in_range[of gd nums] show ?thesis by blast
qed

lemma build_three_red:
  "buildData noFraction (defaultProps emptyConfig) [redArc, redArc, redArc]
     = [startPoint noFraction (defaultProps emptyConfig) \<lparr>r = 255, g = 0, b = 0\<rparr> redArc,
        endPoint noFraction (defaultProps emptyConfig) \<lparr>r = 255, g = 0, b = 0\<rparr> redArc]"
  by (simp add: buildData_firstOccurrences emitted_def arcPoints_def redArc_def mkArc_def
      hexToRgb_f00 numericPoint_def startPoint_def endPoint_def coord_def)

theorem ringTick_replaces_rings_witness:
  "unitSource thirdsSource \<and>
   ringCount (length [redArc, redArc, redArc])
     \<le> distinctDraws thirdsSource 0 (int (length [redArc, redArc, redArc])) 0 2 \<and>
   (\<exists>nums k'.
      ringTick thirdsSource 0 [redArc, redArc, redArc]
        (mounted (buildData noFraction (defaultProps emptyConfig) [redArc, redArc, redArc]))
      = Some ((mounted (buildData noFraction (defaultProps emptyConfig) [redArc, redArc, redArc]))
           \<lparr>globeRef := Some (freshGlobe\<lparr>ringsData :=
               atIndices (buildData noFraction (defaultProps emptyConfig) [redArc, redArc, redArc]) nums\<rparr>)\<rparr>,
          k') \<and>
      list_all (\<lambda>x. 0 \<le> x \<and> x < 3) nums)"
proof -
  let ?data = "[redArc, redArc, redArc]"
  let ?gd = "buildData noFraction (defaultProps emptyConfig) ?data"
  have e: "ringCount (length ?data) \<le> distinctDraws thirdsSource 0 (int (length ?data)) 0 2"
    by (simp add: draws_thirds ringCount_def)
  have g: "globeRef (mounted ?gd) = Some freshGlobe" by (simp add: mounted_def)
  have d: "globeData (mounted ?gd) = Some ?gd" by (simp add: mounted_def)
  have n: "?data \<noteq> []" by simp
  from ringTick_replaces_rings[OF g d n unit_thirds e]
  obtain nums k' where
    "\<forall>x\<in>set nums. 0 \<le> x \<and> x < int (length ?data)"
    "ringTick thirdsSource 0 ?data (mounted ?gd)
       = Some ((mounted ?gd)\<lparr>globeRef := Some (freshGlobe\<lparr>ringsData := atIndices ?gd nums\<rparr>)\<rparr>, k')"
    by blast
  then show ?thesis using unit_thirds e
    by (auto simp: list_all_iff)
qed

lemma gen_thirds_from_4:
  "genRandomNumbers thirdsSource 4 0 3 2 = Some ([1, 2], 6)"
proof -
  have d1: "drawAt thirdsSource 0 3 4 = 1" by (simp add: drawAt_def thirdsSource_def)
  have d2: "drawAt thirdsSource 0 3 5 = 2" by (simp add: drawAt_def thirdsSource_def)
  have "genRandomLoop thirdsSource 0 3 2 [] 4 = genRandomLoop thirdsSource 0 3 2 [1] 5"
    by (subst genRandomLoop_step) (simp_all add: d1)
  also have "\<dots> = genRandomLoop thirdsSource 0 3 2 [1, 2] 6"
    by (subst genRandomLoop_step) (simp_all add: d2)
  also have "\<dots> = Some ([1, 2], 6)"
    by (simp add: genRandomLoop_done)
  finally show ?thesis by (simp add: genRandomNumbers_def)
qed

text \<open>
  The claim as stated makes every drawn index a position of the point list. Three arcs
  between the same two places give two points, and a tick may draw the indices 1 and 2.
\<close>

theorem ringTick_index_counterexample:
  "genRandomNumbers thirdsSource 4 0 (int (length [redArc, redArc, redArc]))
      (int (ringCount (length [redArc, redArc, redArc]))) = Some ([1, 2], 6) \<and>
   length (buildData noFraction (defaultProps emptyConfig) [redArc, redArc, redArc]) = 2 \<and>
   \<not> (2 < int (length (buildData noFraction (defaultProps emptyConfig) [redArc, redArc, redArc])))"
  by (simp add: gen_thirds_from_4 ringCount_def build_three_red)

text \<open>
  Claim C10. With an empty arc list the point dataset is empty; the draw of a ring
  tick returns no index, without consuming a random value; a ring tick leaves the
  state as it is; the effect starts no timer; and the arc, point and ring datasets
  that \<open>startAnimation\<close> configures are empty. The functions involved are total on this
  input: nothing is thrown.
\<close>

theorem empty_arc_list:
  "buildData fmt dp [] = [] \<and>
   genRandomNumbers rnd k 0 (int (length ([] :: Position list)))
      (int (ringCount (length ([] :: Position list)))) = Some ([], k) \<and>
   ringTick rnd k [] st = Some (st, k) \<and>
   \<not> ringEffectStartsTimer [] st \<and>
   (\<forall>gl. globeRef st = Some gl \<and> globeData st = Some (buildData fmt dp []) \<longrightarrow>
      (\<exists>gl'. globeRef (startAnimation dp [] st) = Some gl' \<and>
         arcsData gl' = [] \<and> pointsData gl' = [] \<and> ringsData gl' = []))"
proof (intro conjI allI impI)
  show b: "buildData fmt dp [] = []"
    by (simp add: buildData_def filteredPoints_def filterIndexed_def)
  show "genRandomNumbers rnd k 0 (int (length ([] :: Position list)))
      (int (ringCount (length ([] :: Position list)))) = Some ([], k)"
    by (simp add: genRandomNumbers_def ringCount_def genRandomLoop_done)
  show "ringTick rnd k [] st = Some (st, k)"
    by (simp add: ringTick_def split: option.splits)
  show "\<not> ringEffectStartsTimer [] st"
    by (simp add: ringEffectStartsTimer_def)
  fix gl assume "globeRef st = Some gl \<and> globeData st = Some (buildData fmt dp [])"
  then show "\<exists>gl'. globeRef (startAnimation dp [] st) = Some gl' \<and>
         arcsData gl' = [] \<and> pointsData gl' = [] \<and> ringsData gl' = []"
    by (simp add: startAnimation_def b)
qed

theorem empty_arc_list_witness:
  "globeRef (mounted (buildData noFraction (defaultProps emptyConfig) [])) = Some freshGlobe \<and>
   globeData (mounted (buildData noFraction (defaultProps emptyConfig) []))
     = Some (buildData noFraction (defaultProps emptyConfig) []) \<and>
   buildData noFraction (defaultProps emptyConfig) [] = [] \<and>
   ringTick zeroSource 0 [] (mounted (buildData noFraction (defaultProps emptyConfig) []))
     = Some (mounted (buildData noFraction (defaultProps emptyConfig) []), 0) \<and>
   (\<exists>gl'. globeRef (startAnimation (defaultProps emptyConfig) []
               (mounted (buildData noFraction (defaultProps emptyConfig) []))) = Some gl' \<and>
      arcsData gl' = [] \<and> pointsData gl' = [] \<and> ringsData gl' = [])"
proof -
  let ?st = "mounted (buildData noFraction (defaultProps emptyConfig) [])"
  have g: "globeRef ?st = Some freshGlobe" by (simp add: mounted_def)
  have d: "globeData ?st = Some (buildData noFraction (defaultProps emptyConfig) [])"
    by (simp add: mounted_def)
  from empty_arc_list[of noFraction "defaultProps emptyConfig" zeroSource 0 ?st] g d
  show ?thesis by blast
qed


section \<open>The static arc layer\<close>

lemma mathRound_low: "0 \<le> u \<Longrightarrow> u < 1 / 4 \<Longrightarrow> mathRound (u * 2) = 0"
  unfolding mathRound_def by (simp add: floor_unique)

lemma mathRound_mid: "1 / 4 \<le> u \<Longrightarrow> u < 3 / 4 \<Longrightarrow> mathRound (u * 2) = 1"
  unfolding mathRound_def by (rule floor_unique) simp_all

lemma mathRound_high: "3 / 4 \<le> u \<Longrightarrow> u < 1 \<Longrightarrow> mathRound (u * 2) = 2"
  unfolding mathRound_def by (rule floor_unique) simp_all

lemma strokeAccessor_cases:
  assumes "0 \<le> u" "u < 1"
  shows "strokeAccessor u e
     = Some (if u < 1 / 4 then Num (32 / 100) else if u < 3 / 4 then Num (28 / 100) else Num (3 / 10))"
proof -
  consider "u < 1 / 4" | "1 / 4 \<le> u" "u < 3 / 4" | "3 / 4 \<le> u" by linarith
  then show ?thesis
  proof cases
    case 1
    with assms show ?thesis by (simp add: strokeAccessor_def arrayAt_def mathRound_low)
  next
    case 2
    then show ?thesis by (simp add: strokeAccessor_def arrayAt_def mathRound_mid)
  next
    case 3
    with assms show ?thesis by (simp add: strokeAccessor_def arrayAt_def mathRound_high)
  qed
qed

lemma length_filter_upt: "length (filter P [0..<N]) = card {j. j < N \<and> P j}"
  by (simp add: length_filter_conv_card cong: conj_cong)

lemma grid_quarter:
  assumes "0 < m" "j < 4 * m"
  shows "(gridValue (4 * m) j < 1 / 4) = (j < m)"
    and "(gridValue (4 * m) j < 3 / 4) = (j < 3 * m)"
    and "0 \<le> gridValue (4 * m) j"
    and "gridValue (4 * m) j < 1"
proof -
  have pos: "(0::rat) < rat_of_nat (4 * m)" using assms(1) by simp
  have "(rat_of_nat j / rat_of_nat (4 * m) < 1 / 4) = (rat_of_nat j * 4 < rat_of_nat (4 * m))"
    using pos by (simp add: divide_simps)
  also have "\<dots> = (rat_of_nat (j * 4) < rat_of_nat (4 * m))" by simp
  also have "\<dots> = (j * 4 < 4 * m)" by (simp only: of_nat_less_iff)
  finally show "(gridValue (4 * m) j < 1 / 4) = (j < m)" by (simp add: gridValue_def)
  have "(rat_of_nat j / rat_of_nat (4 * m) < 3 / 4) = (rat_of_nat j * 4 < 3 * rat_of_nat (4 * m))"
    using pos by (simp add: divide_simps)
  also have "\<dots> = (rat_of_nat (j * 4) < rat_of_nat (3 * (4 * m)))" by simp
  also have "\<dots> = (j * 4 < 3 * (4 * m))" by (simp only: of_nat_less_iff)
  finally show "(gridValue (4 * m) j < 3 / 4) = (j < 3 * m)" by (simp add: gridValue_def)
  show "0 \<le> gridValue (4 * m) j" by (simp add: gridValue_def)
  have "rat_of_nat j < rat_of_nat (4 * m)" using assms(2) by (simp only: of_nat_less_iff)
  then show "gridValue (4 * m) j < 1" using pos by (simp add: gridValue_def divide_simps)
qed

lemma strokeAccessor_grid:
  assumes "0 < m" "j < 4 * m"
  shows "strokeAccessor (gridValue (4 * m) j) e
     = Some (if j < m then Num (32 / 100) else if j < 3 * m then Num (28 / 100) else Num (3 / 10))"
  using strokeAccessor_cases[OF grid_quarter(3,4)[OF assms], of e]
  by (simp only: grid_quarter(1,2)[OF assms])

lemma strokeCount_grid:
  assumes "0 < m"
  shows "strokeCount (4 * m) (Num (32 / 100)) = m"
    and "strokeCount (4 * m) (Num (28 / 100)) = 2 * m"
    and "strokeCount (4 * m) (Num (3 / 10)) = m"
proof -
  have a: "{j. j < 4 * m \<and> strokeAccessor (gridValue (4 * m) j) blueArc = Some (Num (32 / 100))}
      = {0..<m}"
    using assms by (auto simp: strokeAccessor_grid split: if_splits)
  have b: "{j. j < 4 * m \<and> strokeAccessor (gridValue (4 * m) j) blueArc = Some (Num (28 / 100))}
      = {m..<3 * m}"
    using assms by (auto simp: strokeAccessor_grid split: if_splits)
  have c: "{j. j < 4 * m \<and> strokeAccessor (gridValue (4 * m) j) blueArc = Some (Num (3 / 10))}
      = {3 * m..<4 * m}"
    using assms by (auto simp: strokeAccessor_grid split: if_splits)
  show "strokeCount (4 * m) (Num (32 / 100)) = m"
    unfolding strokeCount_def length_filter_upt a by simp
  show "strokeCount (4 * m) (Num (28 / 100)) = 2 * m"
    unfolding strokeCount_def length_filter_upt b by simp
  show "strokeCount (4 * m) (Num (3 / 10)) = m"
    unfolding strokeCount_def length_filter_upt c by simp
qed

text \<open>
  Claim C7, as amended. Every evaluation of the stroke accessor makes its own call of
  the random source, and for the value \<open>u\<close> of that call, at least 0 and less than 1, the
  width is the element of \<open>[0.32, 0.28, 0.3]\<close> at the index \<open>Math.round(2u)\<close>: 0.32 below a
  quarter, 0.28 from a quarter to below three quarters, 0.3 from there on. The
  accessor that \<open>startAnimation\<close> configures for the arcs of \<open>data\<close> is this one. The
  choice is not uniform: of \<open>4m\<close> equally spaced values of the source, \<open>2m\<close> select
  0.28 and \<open>m\<close> select each of the other two widths.
\<close>

theorem arcStroke_from_fixed_set:
  assumes "0 \<le> u" and "u < 1"
  shows "strokeAccessor u e
       = Some (if u < 1 / 4 then Num (32 / 100) else if u < 3 / 4 then Num (28 / 100) else Num (3 / 10)) \<and>
     strokeAccessor u e \<in> {Some (Num (32 / 100)), Some (Num (28 / 100)), Some (Num (3 / 10))} \<and>
     (\<forall>gl gd. globeRef st = Some gl \<and> globeData st = Some gd \<longrightarrow>
        (\<exists>gl'. globeRef (startAnimation dp data st) = Some gl' \<and> arcsData gl' = data \<and>
           arcStroke gl' u e = strokeAccessor u e)) \<and>
     (0 < m \<longrightarrow> strokeCount (4 * m) (Num (32 / 100)) = m \<and>
        strokeCount (4 * m) (Num (28 / 100)) = 2 * m \<and>
        strokeCount (4 * m) (Num (3 / 10)) = m)"
proof (intro conjI allI impI)
  show s: "strokeAccessor u e
       = Some (if u < 1 / 4 then Num (32 / 100) else if u < 3 / 4 then Num (28 / 100) else Num (3 / 10))"
    using assms by (rule strokeAccessor_cases)
  show "strokeAccessor u e \<in> {Some (Num (32 / 100)), Some (Num (28 / 100)), Some (Num (3 / 10))}"
    unfolding s by simp
next
  fix gl gd assume "globeRef st = Some gl \<and> globeData st = Some gd"
  then show "\<exists>gl'. globeRef (startAnimation dp data st) = Some gl' \<and> arcsData gl' = data \<and>
           arcStroke gl' u e = strokeAccessor u e"
    by (simp add: startAnimation_def)
next
  assume "0 < m"
  then show "strokeCount (4 * m) (Num (32 / 100)) = m"
    "strokeCount (4 * m) (Num (28 / 100)) = 2 * m"
    "strokeCount (4 * m) (Num (3 / 10)) = m"
    by (rule strokeCount_grid)+
qed

theorem arcStroke_from_fixed_set_witness:
  "(0::rat) \<le> 1 / 2 \<and> (1 / 2 :: rat) < 1 \<and>
   strokeAccessor (1 / 2) redArc = Some (Num (28 / 100)) \<and>
   (\<exists>gl'. globeRef (startAnimation (defaultProps mockGlobeConfig) mockData (mounted [])) = Some gl' \<and>
      arcsData gl' = mockData \<and> arcStroke gl' (1 / 2) redArc = strokeAccessor (1 / 2) redArc) \<and>
   strokeCount (4 * 2) (Num (28 / 100)) = 2 * 2"
proof -
  have a: "(0::rat) \<le> 1 / 2" by simp
  have b: "(1 / 2 :: rat) < 1" by simp
  have g: "globeRef (mounted []) = Some freshGlobe" by (simp add: mounted_def)
  have d: "globeData (mounted []) = Some []" by (simp add: mounted_def)
  have m: "(0::nat) < 2" by simp
  note t = arcStroke_from_fixed_set[OF a b, of redArc "mounted []" "defaultProps mockGlobeConfig" mockData 2]
  from t have 1: "strokeAccessor (1 / 2) redArc = Some (Num (28 / 100))" by simp
  from t g d have 2: "\<exists>gl'. globeRef (startAnimation (defaultProps mockGlobeConfig) mockData (mounted [])) = Some gl' \<and>
      arcsData gl' = mockData \<and> arcStroke gl' (1 / 2) redArc = strokeAccessor (1 / 2) redArc"
    by blast
  from t m have 3: "strokeCount (4 * 2) (Num (28 / 100)) = 2 * 2" by blast
  from a b 1 2 3 show ?thesis by blast
qed

text \<open>
  A uniform choice would give the three widths equal shares. Of eight equally spaced
  values of the source, two select 0.32, four select 0.28 and two select 0.3.
\<close>

theorem arcStroke_not_uniform_counterexample:
  "strokeCount 8 (Num (32 / 100)) = 2 \<and> strokeCount 8 (Num (28 / 100)) = 4 \<and>
   strokeCount 8 (Num (3 / 10)) = 2"
  using strokeCount_grid[of 2] by simp

text \<open>
  Claim C9, as amended. On a mounted globe with a point dataset, \<open>startAnimation\<close> sets
  the dash length of the arc layer to the merged configuration's \<open>arcLength\<close> (the
  caller's value, or 0.9), the dash gap to the constant 15, the initial dash gap of
  each arc to its \<open>order * 1\<close>, which is its \<open>order\<close>, and the dash animate time to the
  merged configuration's \<open>arcTime\<close> (the caller's value, or 2000).
\<close>

theorem arc_layer_dash_settings:
  assumes "globeRef st = Some gl" and "globeData st = Some gd"
  shows "\<exists>gl'. globeRef (startAnimation (defaultProps cfg) data st) = Some gl' \<and>
     arcDashLength gl' = arcLength (defaultProps cfg) \<and>
     arcLength (defaultProps cfg) = orDefault (opt_arcLength cfg) (Num (9 / 10)) \<and>
     arcDashGap gl' = Num 15 \<and>
     (\<forall>e. arcDashInitialGap gl' e = timesNum (order e) (Num 1) \<and> arcDashInitialGap gl' e = order e) \<and>
     (\<forall>e. arcDashAnimateTime gl' e = arcTime (defaultProps cfg)) \<and>
     arcTime (defaultProps cfg) = orDefault (opt_arcTime cfg) (Num 2000)"
proof -
  have t: "timesNum x (Num 1) = x" for x by (cases x) simp_all
  from assms show ?thesis
    by (simp add: startAnimation_def defaultProps_def t)
qed

theorem arc_layer_dash_settings_witness:
  "globeRef (mounted []) = Some freshGlobe \<and> globeData (mounted []) = Some [] \<and>
   (\<exists>gl'. globeRef (startAnimation (defaultProps mockGlobeConfig) mockData (mounted [])) = Some gl' \<and>
      arcDashLength gl' = Num (7 / 10) \<and> arcDashGap gl' = Num 15 \<and>
      arcDashInitialGap gl' (mockData ! 3) = Num 4 \<and>
      arcDashAnimateTime gl' (mockData ! 3) = Num 1500)"
proof -
  have g: "globeRef (mounted []) = Some freshGlobe" by (simp add: mounted_def)
  have d: "globeData (mounted []) = Some []" by (simp add: mounted_def)
  from arc_layer_dash_settings[OF g d, of mockGlobeConfig mockData]
  obtain gl' where r: "globeRef (startAnimation (defaultProps mockGlobeConfig) mockData (mounted [])) = Some gl'"
    and l: "arcDashLength gl' = arcLength (defaultProps mockGlobeConfig)"
    and p: "arcDashGap gl' = Num 15"
    and i: "\<forall>e. arcDashInitialGap gl' e = timesNum (order e) (Num 1) \<and> arcDashInitialGap gl' e = order e"
    and t: "\<forall>e. arcDashAnimateTime gl' e = arcTime (defaultProps mockGlobeConfig)"
    by blast
  from l have l': "arcDashLength gl' = Num (7 / 10)"
    by (simp add: defaultProps_def mockGlobeConfig_def orDefault_def)
  from i have i': "arcDashInitialGap gl' (mockData ! 3) = Num 4"
    by (simp add: mock_3 mkArc_def)
  from t have t': "arcDashAnimateTime gl' (mockData ! 3) = Num 1500"
    by (simp add: defaultProps_def mockGlobeConfig_def orDefault_def)
  from g d r l' p i' t' show ?thesis by blast
qed

text \<open>
  The dash gap is not taken from the configuration: it is 15 under the configuration
  of \<open>App\<close> and under the empty one, and 15 is none of their numeric options.
\<close>

theorem arcDashGap_counterexample:
  "arcDashGap (the (globeRef (startAnimation (defaultProps mockGlobeConfig) mockData (mounted []))))
     = Num 15 \<and>
   arcDashGap (the (globeRef (startAnimation (defaultProps emptyConfig) mockData (mounted []))))
     = Num 15 \<and>
   Num 15 \<notin> set (configNumbers (defaultProps mockGlobeConfig)) \<and>
   Num 15 \<notin> set (configNumbers (defaultProps emptyConfig))"
  by (simp add: startAnimation_def mounted_def configNumbers_def defaultProps_def
      mockGlobeConfig_def emptyConfig_def orDefault_def)


end
